theory Spec2Isabelle
  imports Main "HOL-Library.Word"
begin

unbundle bit_operations_syntax

section \<open>Memory\<close>

text \<open>
  The accessors of \<^verbatim>\<open>upb/message/internal/accessors.h\<close> work on raw memory: a message is a
  pointer, a field is reached at \<^verbatim>\<open>(char*)msg + offset\<close>, values travel through
  \<^verbatim>\<open>void*\<close> buffers. A pointer is modelled by the memory seen from it: byte \<open>i\<close> of a
  buffer \<open>p\<close> is \<open>p i\<close>. The source checks no bound, so neither does the model; the extent of a
  region is the business of whoever allocated it. Distinct C objects (the message, a caller's
  value buffer, an extension entry) are distinct buffers, so a write to one never reaches
  another.

  The target is taken to be LP64 and little-endian: a pointer and a \<^verbatim>\<open>size_t\<close> are 8 bytes,
  \<^verbatim>\<open>sizeof(upb_StringView)\<close> is 16, and the least significant byte of an integer comes first.
\<close>

type_synonym byte = "8 word"
type_synonym buf = "nat \<Rightarrow> byte"

definition fetch :: "buf \<Rightarrow> nat \<Rightarrow> nat \<Rightarrow> byte list" where
  "fetch m a n = map (\<lambda>i. m (a + i)) [0..<n]"

definition buf_of :: "byte list \<Rightarrow> buf" where
  "buf_of bs = (\<lambda>i. if i < length bs then bs ! i else 0)"

text \<open>\<^verbatim>\<open>memcpy(dst + d, src + s, n)\<close>.\<close>

definition memcpy :: "buf \<Rightarrow> nat \<Rightarrow> buf \<Rightarrow> nat \<Rightarrow> nat \<Rightarrow> buf" where
  "memcpy dst d src s n = (\<lambda>i. if d \<le> i \<and> i < d + n then src (s + (i - d)) else dst i)"

text \<open>\<^verbatim>\<open>memcmp\<close>: the sign of the first difference, bytes compared as unsigned.\<close>

fun memcmp_bytes :: "byte list \<Rightarrow> byte list \<Rightarrow> int" where
  "memcmp_bytes (x # xs) (y # ys) =
     (if x = y then memcmp_bytes xs ys else if x < y then - 1 else 1)"
| "memcmp_bytes _ _ = 0"

definition memcmp :: "buf \<Rightarrow> buf \<Rightarrow> nat \<Rightarrow> int" where
  "memcmp a b n = memcmp_bytes (fetch a 0 n) (fetch b 0 n)"

text \<open>Integers in memory, least significant byte first.\<close>

fun le_word :: "byte list \<Rightarrow> 'a::len word" where
  "le_word [] = 0"
| "le_word (b # bs) = ucast b OR push_bit 8 (le_word bs)"

definition le_bytes :: "nat \<Rightarrow> 'a::len word \<Rightarrow> byte list" where
  "le_bytes n w = map (\<lambda>i. ucast (drop_bit (8 * i) w)) [0..<n]"

definition load32 :: "buf \<Rightarrow> nat \<Rightarrow> 32 word" where
  "load32 m a = le_word (fetch m a 4)"

definition store32 :: "buf \<Rightarrow> nat \<Rightarrow> 32 word \<Rightarrow> buf" where
  "store32 m a w = memcpy m a (buf_of (le_bytes 4 w)) 0 4"

definition load64 :: "buf \<Rightarrow> nat \<Rightarrow> 64 word" where
  "load64 m a = le_word (fetch m a 8)"

text \<open>\<^verbatim>\<open>char zero[16] = {0}\<close>, and the null value of a pointer variable.\<close>

definition zeros :: buf where
  "zeros = (\<lambda>i. 0)"

section \<open>Field descriptors and messages\<close>

text \<open>
  Modelled from the spec: \<^verbatim>\<open>upb_MiniTableField\<close> is declared in
  \<^verbatim>\<open>upb/mini_table/internal/field.h\<close>, which is not among the sources. The spec gives its
  attributes: field number (unsigned, 32 bits, the oneof discriminant), byte offset
  (unsigned), presence (signed: positive is a hasbit index, negative is the complement of the
  offset of the oneof case slot, zero is no tracked presence), representation class, the
  extension flag, and the field's shape (map, repeated or scalar). The offset and the presence
  are 16-bit in C; no operation on them here can overflow (they are widened to
  \<^verbatim>\<open>size_t\<close> and \<^verbatim>\<open>ptrdiff_t\<close> first), so they are a \<open>nat\<close> and an \<open>int\<close>.
\<close>

datatype upb_FieldRep =
  kUpb_FieldRep_1Byte | kUpb_FieldRep_4Byte | kUpb_FieldRep_StringView | kUpb_FieldRep_8Byte

datatype upb_FieldMode = kUpb_FieldMode_Map | kUpb_FieldMode_Array | kUpb_FieldMode_Scalar

record upb_MiniTableField =
  number :: "32 word"
  offset :: nat
  presence :: int
  rep :: upb_FieldRep
  mode :: upb_FieldMode
  is_extension :: bool

text \<open>
  Modelled from the spec: an extension descriptor wraps a field descriptor; its identity in
  a lookup is its address (the source compares descriptor pointers).
\<close>

record upb_MiniTableExtension =
  field :: upb_MiniTableField
  addr :: nat

text \<open>
  \<^verbatim>\<open>_upb_Message_GetField\<close> and \<^verbatim>\<open>_upb_Message_SetField\<close> take a
  \<^verbatim>\<open>const upb_MiniTableField*\<close> and cast it to \<^verbatim>\<open>upb_MiniTableExtension*\<close> when the
  extension flag is set: the pointer is either to a field of a message's table, or to the
  field that starts an extension descriptor. Casting a pointer of the first kind reads a
  descriptor that is not there; the model gives such a call no result.
\<close>

datatype field_ptr = PlainField upb_MiniTableField | ExtField upb_MiniTableExtension

fun deref :: "field_ptr \<Rightarrow> upb_MiniTableField" where
  "deref (PlainField f) = f"
| "deref (ExtField e) = field e"

text \<open>
  Modelled from the spec: an extension entry is a (descriptor reference, raw value) pair; the
  entries live in an arena-owned array reached from the message's internal header, and the
  live ones are the window from \<open>ext_begin\<close> to the end of the array. \<open>ext_begin\<close> counts
  entries (the source counts bytes, in steps of \<^verbatim>\<open>sizeof(upb_Message_Extension)\<close>). A message
  with no extension storage yet has a null \<^verbatim>\<open>internal\<close> pointer. The accessors reach the
  header only through \<^verbatim>\<open>upb_Message_Getinternal\<close>, never through a field offset, so it is
  a component of the message beside its field bytes.
\<close>

record upb_Message_Extension =
  ext :: nat
  data :: buf

record upb_Message_InternalData =
  ext_begin :: nat
  ext_array :: "upb_Message_Extension list"

record upb_Message =
  bytes :: buf
  internal :: "upb_Message_InternalData option"

section \<open>Hasbit access\<close>

definition upb_hasbit_ofs :: "nat \<Rightarrow> nat" where
  "upb_hasbit_ofs idx = idx div 8"

definition upb_hasbit_mask :: "nat \<Rightarrow> byte" where
  "upb_hasbit_mask idx = push_bit (idx mod 8) 1"

definition upb_hasbit :: "upb_Message \<Rightarrow> nat \<Rightarrow> bool" where
  "upb_hasbit msg idx = (bytes msg (upb_hasbit_ofs idx) AND upb_hasbit_mask idx \<noteq> 0)"

definition upb_sethas :: "upb_Message \<Rightarrow> nat \<Rightarrow> upb_Message" where
  "upb_sethas msg idx =
     msg\<lparr>bytes := (bytes msg)
       (upb_hasbit_ofs idx := bytes msg (upb_hasbit_ofs idx) OR upb_hasbit_mask idx)\<rparr>"

definition upb_clearhas :: "upb_Message \<Rightarrow> nat \<Rightarrow> upb_Message" where
  "upb_clearhas msg idx =
     msg\<lparr>bytes := (bytes msg)
       (upb_hasbit_ofs idx := bytes msg (upb_hasbit_ofs idx) AND NOT (upb_hasbit_mask idx))\<rparr>"

text \<open>
  \<^verbatim>\<open>UPB_ASSERT\<close> and \<^verbatim>\<open>UPB_ASSUME\<close> are modelled as they behave in a debug build: a
  function whose assertion fails has no result (\<open>None\<close>).
\<close>

definition upb_Message_Hasidx :: "upb_MiniTableField \<Rightarrow> nat option" where
  "upb_Message_Hasidx f = (if presence f > 0 then Some (nat (presence f)) else None)"

definition upb_hasbit_field :: "upb_Message \<Rightarrow> upb_MiniTableField \<Rightarrow> bool option" where
  "upb_hasbit_field msg f = map_option (upb_hasbit msg) (upb_Message_Hasidx f)"

definition upb_sethas_field :: "upb_Message \<Rightarrow> upb_MiniTableField \<Rightarrow> upb_Message option" where
  "upb_sethas_field msg f = map_option (upb_sethas msg) (upb_Message_Hasidx f)"

section \<open>Oneof case access\<close>

definition upb_oneofcase_ofs :: "upb_MiniTableField \<Rightarrow> nat option" where
  "upb_oneofcase_ofs f = (if presence f < 0 then Some (nat (NOT (presence f))) else None)"

text \<open>The pointer \<^verbatim>\<open>UPB_PTR_AT(msg, ofs, uint32_t)\<close>, as an offset into the message.\<close>

definition upb_oneofcase_field :: "upb_MiniTableField \<Rightarrow> nat option" where
  "upb_oneofcase_field f = upb_oneofcase_ofs f"

definition upb_getoneofcase_field :: "upb_Message \<Rightarrow> upb_MiniTableField \<Rightarrow> 32 word option" where
  "upb_getoneofcase_field msg f = map_option (load32 (bytes msg)) (upb_oneofcase_field f)"

definition upb_MiniTableField_InOneOf :: "upb_MiniTableField \<Rightarrow> bool" where
  "upb_MiniTableField_InOneOf f = (presence f < 0)"

text \<open>The pointer \<^verbatim>\<open>(char*)msg + field->offset\<close>, as an offset into the message.\<close>

definition upb_MiniTableField_GetPtr :: "upb_MiniTableField \<Rightarrow> nat" where
  "upb_MiniTableField_GetPtr f = offset f"

definition upb_MiniTableField_GetConstPtr :: "upb_MiniTableField \<Rightarrow> nat" where
  "upb_MiniTableField_GetConstPtr f = offset f"

definition upb_Message_SetPresence :: "upb_Message \<Rightarrow> upb_MiniTableField \<Rightarrow> upb_Message option" where
  "upb_Message_SetPresence msg f =
     (if presence f > 0 then upb_sethas_field msg f
      else if upb_MiniTableField_InOneOf f then
        (case upb_oneofcase_field f of
           None \<Rightarrow> None
         | Some p \<Rightarrow> Some (msg\<lparr>bytes := store32 (bytes msg) p (number f)\<rparr>))
      else Some msg)"

section \<open>Representation classes\<close>

text \<open>
  Modelled from the spec: \<^verbatim>\<open>upb_StringView\<close> (\<^verbatim>\<open>upb/base/string_view.h\<close>) is a pointer
  followed by a \<^verbatim>\<open>size_t\<close> length; \<open>sv->size\<close> is the 8 bytes at offset 8.
\<close>

definition upb_StringView_size :: "buf \<Rightarrow> 64 word" where
  "upb_StringView_size sv = load64 sv 8"

definition upb_MiniTableField_GetRep :: "upb_MiniTableField \<Rightarrow> upb_FieldRep" where
  "upb_MiniTableField_GetRep f = rep f"

definition upb_MiniTable_ValueIsNonZero :: "buf \<Rightarrow> upb_MiniTableField \<Rightarrow> bool" where
  "upb_MiniTable_ValueIsNonZero default_val f =
     (case upb_MiniTableField_GetRep f of
        kUpb_FieldRep_1Byte \<Rightarrow> memcmp zeros default_val 1 \<noteq> 0
      | kUpb_FieldRep_4Byte \<Rightarrow> memcmp zeros default_val 4 \<noteq> 0
      | kUpb_FieldRep_8Byte \<Rightarrow> memcmp zeros default_val 8 \<noteq> 0
      | kUpb_FieldRep_StringView \<Rightarrow> upb_StringView_size default_val \<noteq> 0)"

text \<open>
  \<^verbatim>\<open>_upb_MiniTable_CopyFieldData(to, from, field)\<close>, with \<open>to\<close> the buffer \<open>dst\<close> at offset
  \<open>d\<close> and \<open>from\<close> the buffer \<open>src\<close> at offset \<open>s\<close>; the result is \<open>dst\<close> after the copy.
  The representation class has four values and the \<^verbatim>\<open>switch\<close> covers them all, so
  \<^verbatim>\<open>UPB_UNREACHABLE\<close> is never reached, here and in the zero test above.
\<close>

definition upb_MiniTable_CopyFieldData ::
  "buf \<Rightarrow> nat \<Rightarrow> buf \<Rightarrow> nat \<Rightarrow> upb_MiniTableField \<Rightarrow> buf" where
  "upb_MiniTable_CopyFieldData dst d src s f =
     (case upb_MiniTableField_GetRep f of
        kUpb_FieldRep_1Byte \<Rightarrow> memcpy dst d src s 1
      | kUpb_FieldRep_4Byte \<Rightarrow> memcpy dst d src s 4
      | kUpb_FieldRep_8Byte \<Rightarrow> memcpy dst d src s 8
      | kUpb_FieldRep_StringView \<Rightarrow> memcpy dst d src s 16)"

text \<open>The width of a representation class, to state what the copies move.\<close>

fun rep_width :: "upb_FieldRep \<Rightarrow> nat" where
  "rep_width kUpb_FieldRep_1Byte = 1"
| "rep_width kUpb_FieldRep_4Byte = 4"
| "rep_width kUpb_FieldRep_8Byte = 8"
| "rep_width kUpb_FieldRep_StringView = 16"

text \<open>
  When two values of a representation class are the same value, as the spec has it
  (section 4.1): their byte patterns of the class's width agree, or both are the zero value
  by the source's own zero test. For the 1-byte, 4-byte and 8-byte classes this is equality
  of the bytes; string views of length 0 are all the zero value, whatever their pointer
  field.
\<close>

definition same_value :: "upb_MiniTableField \<Rightarrow> buf \<Rightarrow> buf \<Rightarrow> bool" where
  "same_value f a b =
     (fetch a 0 (rep_width (rep f)) = fetch b 0 (rep_width (rep f))
      \<or> (\<not> upb_MiniTable_ValueIsNonZero a f \<and> \<not> upb_MiniTable_ValueIsNonZero b f))"

section \<open>Accessors of non-extension fields\<close>

text \<open>
  Modelled from the spec: \<^verbatim>\<open>upb_MiniTableField_IsExtension\<close> reads the descriptor's extension
  flag; \<^verbatim>\<open>upb_MiniTableField_HasPresence\<close> (both of \<^verbatim>\<open>upb/mini_table/internal/field.h\<close>) is
  non-zero presence for a field of a message and, for an extension, that the field is
  neither repeated nor a map.
\<close>

definition upb_MiniTableField_IsExtension :: "upb_MiniTableField \<Rightarrow> bool" where
  "upb_MiniTableField_IsExtension f = is_extension f"

definition upb_IsRepeatedOrMap :: "upb_MiniTableField \<Rightarrow> bool" where
  "upb_IsRepeatedOrMap f = (mode f \<noteq> kUpb_FieldMode_Scalar)"

definition upb_MiniTableField_HasPresence :: "upb_MiniTableField \<Rightarrow> bool" where
  "upb_MiniTableField_HasPresence f =
     (if upb_MiniTableField_IsExtension f then \<not> upb_IsRepeatedOrMap f else presence f \<noteq> 0)"

definition upb_Message_HasNonExtensionField ::
  "upb_Message \<Rightarrow> upb_MiniTableField \<Rightarrow> bool option" where
  "upb_Message_HasNonExtensionField msg f =
     (if \<not> upb_MiniTableField_HasPresence f then None
      else if upb_MiniTableField_IsExtension f then None
      else if upb_MiniTableField_InOneOf f then
        map_option (\<lambda>c. c = number f) (upb_getoneofcase_field msg f)
      else upb_hasbit_field msg f)"

text \<open>
  \<^verbatim>\<open>val\<close> is the caller's output buffer; the result is that buffer after the call.
\<close>

definition upb_Message_GetNonExtensionField ::
  "upb_Message \<Rightarrow> upb_MiniTableField \<Rightarrow> buf \<Rightarrow> buf \<Rightarrow> buf option" where
  "upb_Message_GetNonExtensionField msg f default_val val =
     (if upb_MiniTableField_IsExtension f then None
      else if upb_MiniTableField_InOneOf f \<or> upb_MiniTable_ValueIsNonZero default_val f then
        (case upb_Message_HasNonExtensionField msg f of
           None \<Rightarrow> None
         | Some h \<Rightarrow>
             if \<not> h then Some (upb_MiniTable_CopyFieldData val 0 default_val 0 f)
             else Some (upb_MiniTable_CopyFieldData val 0
                          (bytes msg) (upb_MiniTableField_GetConstPtr f) f))
      else Some (upb_MiniTable_CopyFieldData val 0
                   (bytes msg) (upb_MiniTableField_GetConstPtr f) f))"

definition upb_Message_SetNonExtensionField ::
  "upb_Message \<Rightarrow> upb_MiniTableField \<Rightarrow> buf \<Rightarrow> upb_Message option" where
  "upb_Message_SetNonExtensionField msg f val =
     (if upb_MiniTableField_IsExtension f then None
      else
        (case upb_Message_SetPresence msg f of
           None \<Rightarrow> None
         | Some m \<Rightarrow>
             Some (m\<lparr>bytes := upb_MiniTable_CopyFieldData
                     (bytes m) (upb_MiniTableField_GetPtr f) val 0 f\<rparr>)))"

definition upb_Message_ClearNonExtensionField ::
  "upb_Message \<Rightarrow> upb_MiniTableField \<Rightarrow> upb_Message option" where
  "upb_Message_ClearNonExtensionField msg f =
     (let zero_fill = (\<lambda>m. m\<lparr>bytes := upb_MiniTable_CopyFieldData
                                (bytes m) (upb_MiniTableField_GetPtr f) zeros 0 f\<rparr>)
      in if presence f > 0 then
           map_option (\<lambda>idx. zero_fill (upb_clearhas msg idx)) (upb_Message_Hasidx f)
         else if upb_MiniTableField_InOneOf f then
           (case upb_oneofcase_field f of
              None \<Rightarrow> None
            | Some oneof_case \<Rightarrow>
                if load32 (bytes msg) oneof_case \<noteq> number f then Some msg
                else Some (zero_fill (msg\<lparr>bytes := store32 (bytes msg) oneof_case 0\<rparr>)))
         else Some (zero_fill msg))"

section \<open>The arena and the extension array\<close>

text \<open>
  Modelled from the spec: the arena is an opaque capability, \<open>allocate(size)\<close> giving a
  pointer or failure. Its state is the list of answers it will give, in order (a null
  pointer is a failure, and so is every request after the list has run out), and the number
  of requests it has served.
\<close>

record upb_Arena =
  answers :: "64 word list"
  requests :: nat

definition upb_Arena_Malloc :: "upb_Arena \<Rightarrow> 64 word \<times> upb_Arena" where
  "upb_Arena_Malloc a =
     (case answers a of
        [] \<Rightarrow> (0, a\<lparr>requests := requests a + 1\<rparr>)
      | p # ps \<Rightarrow> (p, a\<lparr>answers := ps, requests := requests a + 1\<rparr>))"

text \<open>
  Modelled from the spec: \<^verbatim>\<open>_upb_Message_Getext\<close> (\<^verbatim>\<open>upb/message/internal/extension.h\<close>)
  is the lookup of the extension-array collaborator: the entry of the window whose
  descriptor is \<open>e\<close>, or none. The window is searched from its front. The result is the
  entry's place in the array (the C pointer) together with the entry it points to.
\<close>

definition upb_Message_Getext ::
  "upb_Message \<Rightarrow> upb_MiniTableExtension \<Rightarrow> (nat \<times> upb_Message_Extension) option" where
  "upb_Message_Getext msg e =
     (case internal msg of
        None \<Rightarrow> None
      | Some inl \<Rightarrow>
          map_option (\<lambda>i. (i, ext_array inl ! i))
            (List.find (\<lambda>i. ext (ext_array inl ! i) = addr e)
               [ext_begin inl ..< length (ext_array inl)]))"

text \<open>
  Modelled from the spec: \<^verbatim>\<open>_upb_Message_GetOrCreateExtension\<close> looks the entry up; if
  there is none it asks the arena for a new slot and returns null when the arena fails,
  changing nothing of the message. A new slot becomes the front of the window (the slot
  below \<open>ext_begin\<close> when the array has room there, a longer array otherwise); its value
  is zeroed.
\<close>

definition upb_Message_GetOrCreateExtension ::
  "upb_Message \<Rightarrow> upb_MiniTableExtension \<Rightarrow> upb_Arena \<Rightarrow> nat option \<times> upb_Message \<times> upb_Arena" where
  "upb_Message_GetOrCreateExtension msg e a =
     (case upb_Message_Getext msg e of
        Some (i, _) \<Rightarrow> (Some i, msg, a)
      | None \<Rightarrow>
          (case upb_Arena_Malloc a of
             (p, a') \<Rightarrow>
               if p = 0 then (None, msg, a')
               else
                 (let new = \<lparr>ext = addr e, data = zeros\<rparr> in
                  case internal msg of
                    None \<Rightarrow>
                      (Some 0, msg\<lparr>internal := Some \<lparr>ext_begin = 0, ext_array = [new]\<rparr>\<rparr>, a')
                  | Some inl \<Rightarrow>
                      if 0 < ext_begin inl \<and> ext_begin inl \<le> length (ext_array inl) then
                        (Some (ext_begin inl - 1),
                         msg\<lparr>internal := Some (inl\<lparr>ext_begin := ext_begin inl - 1,
                           ext_array := (ext_array inl)[ext_begin inl - 1 := new]\<rparr>)\<rparr>, a')
                      else
                        (Some 0,
                         msg\<lparr>internal := Some \<lparr>ext_begin = 0,
                           ext_array = new # drop (ext_begin inl) (ext_array inl)\<rparr>\<rparr>, a'))))"

section \<open>Accessors of extension fields\<close>

definition upb_Message_HasExtensionField ::
  "upb_Message \<Rightarrow> upb_MiniTableExtension \<Rightarrow> bool option" where
  "upb_Message_HasExtensionField msg e =
     (if \<not> upb_MiniTableField_HasPresence (field e) then None
      else Some (upb_Message_Getext msg e \<noteq> None))"

definition upb_Message_GetExtensionField ::
  "upb_Message \<Rightarrow> upb_MiniTableExtension \<Rightarrow> buf \<Rightarrow> buf \<Rightarrow> buf option" where
  "upb_Message_GetExtensionField msg mt_ext default_val val =
     (if \<not> upb_MiniTableField_IsExtension (field mt_ext) then None
      else
        (case upb_Message_Getext msg mt_ext of
           Some (i, x) \<Rightarrow> Some (upb_MiniTable_CopyFieldData val 0 (data x) 0 (field mt_ext))
         | None \<Rightarrow> Some (upb_MiniTable_CopyFieldData val 0 default_val 0 (field mt_ext))))"

definition upb_Message_GetField ::
  "upb_Message \<Rightarrow> field_ptr \<Rightarrow> buf \<Rightarrow> buf \<Rightarrow> buf option" where
  "upb_Message_GetField msg p default_val val =
     (if upb_MiniTableField_IsExtension (deref p) then
        (case p of
           ExtField e \<Rightarrow> upb_Message_GetExtensionField msg e default_val val
         | PlainField f \<Rightarrow> None)
      else upb_Message_GetNonExtensionField msg (deref p) default_val val)"

text \<open>A write through \<^verbatim>\<open>&ext->data\<close>, for the entry at place \<open>i\<close> of the array.\<close>

definition update_ext_data :: "upb_Message \<Rightarrow> nat \<Rightarrow> (buf \<Rightarrow> buf) \<Rightarrow> upb_Message" where
  "update_ext_data msg i g =
     msg\<lparr>internal := map_option
       (\<lambda>inl. inl\<lparr>ext_array :=
          (ext_array inl)[i := (ext_array inl ! i)\<lparr>data := g (data (ext_array inl ! i))\<rparr>]\<rparr>)
       (internal msg)\<rparr>"

text \<open>
  The arena pointer of a setter may be null (\<open>None\<close>) when the field is known not to be an
  extension; \<^verbatim>\<open>_upb_Message_SetExtensionField\<close> asserts that it is not.
\<close>

definition upb_Message_SetExtensionField ::
  "upb_Message \<Rightarrow> upb_MiniTableExtension \<Rightarrow> buf \<Rightarrow> upb_Arena option
     \<Rightarrow> (bool \<times> upb_Message \<times> upb_Arena option) option" where
  "upb_Message_SetExtensionField msg mt_ext val a =
     (case a of
        None \<Rightarrow> None
      | Some ar \<Rightarrow>
          (case upb_Message_GetOrCreateExtension msg mt_ext ar of
             (None, m, ar') \<Rightarrow> Some (False, m, Some ar')
           | (Some i, m, ar') \<Rightarrow>
               Some (True,
                 update_ext_data m i
                   (\<lambda>d. upb_MiniTable_CopyFieldData d 0 val 0 (field mt_ext)),
                 Some ar')))"

definition upb_Message_SetField ::
  "upb_Message \<Rightarrow> field_ptr \<Rightarrow> buf \<Rightarrow> upb_Arena option
     \<Rightarrow> (bool \<times> upb_Message \<times> upb_Arena option) option" where
  "upb_Message_SetField msg p val a =
     (if upb_MiniTableField_IsExtension (deref p) then
        (case p of
           ExtField e \<Rightarrow> upb_Message_SetExtensionField msg e val a
         | PlainField f \<Rightarrow> None)
      else map_option (\<lambda>m. (True, m, a)) (upb_Message_SetNonExtensionField msg (deref p) val))"

definition upb_Message_ClearExtensionField ::
  "upb_Message \<Rightarrow> upb_MiniTableExtension \<Rightarrow> upb_Message" where
  "upb_Message_ClearExtensionField msg ext_l =
     (case internal msg of
        None \<Rightarrow> msg
      | Some inl \<Rightarrow>
          (case upb_Message_Getext msg ext_l of
             Some (i, x) \<Rightarrow>
               msg\<lparr>internal := Some (inl\<lparr>
                 ext_array := (ext_array inl)[i := ext_array inl ! ext_begin inl],
                 ext_begin := ext_begin inl + 1\<rparr>)\<rparr>
           | None \<Rightarrow> msg))"

section \<open>Map fields\<close>

text \<open>
  Modelled from the spec: \<^verbatim>\<open>_upb_MiniTableField_CheckIsMap\<close> asserts that the descriptor is
  map-shaped: the field's shape is map and its value is a reference stored inline, of
  pointer width. \<^verbatim>\<open>upb_TaggedMessagePtr_IsEmpty\<close> tells the reserved placeholder from a real
  reference; the mark is the low bit of the pointer word, clear in null and in every
  aligned reference. \<^verbatim>\<open>_upb_Map_New\<close> is the map collaborator: it builds the map from the
  arena and returns its reference, or null when the arena fails; every invocation is one
  request to the arena.
\<close>

definition upb_MiniTableField_CheckIsMap :: "upb_MiniTableField \<Rightarrow> bool" where
  "upb_MiniTableField_CheckIsMap f =
     (upb_MiniTableField_GetRep f = kUpb_FieldRep_8Byte \<and> mode f = kUpb_FieldMode_Map)"

definition upb_TaggedMessagePtr_IsEmpty :: "64 word \<Rightarrow> bool" where
  "upb_TaggedMessagePtr_IsEmpty p = bit p 0"

definition upb_Map_New :: "upb_Arena \<Rightarrow> nat \<Rightarrow> nat \<Rightarrow> 64 word \<times> upb_Arena" where
  "upb_Map_New a key_size val_size = upb_Arena_Malloc a"

text \<open>
  The check of a debug build. The local \<^verbatim>\<open>tagged\<close> is 8 bytes, all of them written by
  the getter once the descriptor has passed \<^verbatim>\<open>CheckIsMap\<close>.
\<close>

definition upb_Message_AssertMapIsUntagged ::
  "upb_Message \<Rightarrow> upb_MiniTableField \<Rightarrow> unit option" where
  "upb_Message_AssertMapIsUntagged msg f =
     (if \<not> upb_MiniTableField_CheckIsMap f then None
      else
        (case upb_Message_GetNonExtensionField msg f zeros zeros of
           None \<Rightarrow> None
         | Some tagged \<Rightarrow>
             if upb_TaggedMessagePtr_IsEmpty (load64 tagged 0) then None else Some ()))"

text \<open>
  The result is the returned reference (0 is null), the message and the arena after the call.
\<close>

definition upb_Message_GetOrCreateMutableMap ::
  "upb_Message \<Rightarrow> upb_MiniTableField \<Rightarrow> nat \<Rightarrow> nat \<Rightarrow> upb_Arena
     \<Rightarrow> (64 word \<times> upb_Message \<times> upb_Arena) option" where
  "upb_Message_GetOrCreateMutableMap msg f key_size val_size arena =
     (if \<not> upb_MiniTableField_CheckIsMap f then None
      else
        (case upb_Message_AssertMapIsUntagged msg f of
           None \<Rightarrow> None
         | Some _ \<Rightarrow>
             (case upb_Message_GetNonExtensionField msg f zeros zeros of
                None \<Rightarrow> None
              | Some map_var \<Rightarrow>
                  if load64 map_var 0 = 0 then
                    (case upb_Map_New arena key_size val_size of
                       (new_map, arena') \<Rightarrow>
                         if \<not> upb_MiniTableField_CheckIsMap f then None
                         else
                           map_option (\<lambda>m. (new_map, m, arena'))
                             (upb_Message_SetNonExtensionField msg f
                                (buf_of (le_bytes 8 new_map))))
                  else Some (load64 map_var 0, msg, arena))))"

section \<open>Message types and runs of accessor calls\<close>

text \<open>A message as \<^verbatim>\<open>upb_Message_New\<close> leaves it: zeroed, with no extension storage.\<close>

definition new_message :: upb_Message where
  "new_message = \<lparr>bytes = zeros, internal = None\<rparr>"

text \<open>
  The layout a table of field descriptors must have for its oneof groups: no field is an
  extension, field numbers are non-zero and identify the field, and the four bytes of a
  oneof case slot are shared with nothing: no field's storage, no hasbit byte, and no other
  group's slot.
\<close>

definition slot_clear_of :: "upb_MiniTableField \<Rightarrow> nat \<Rightarrow> nat \<Rightarrow> bool" where
  "slot_clear_of g lo hi =
     (nat (NOT (presence g)) + 4 \<le> lo \<or> hi \<le> nat (NOT (presence g)))"

definition layout_ok :: "upb_MiniTableField \<Rightarrow> upb_MiniTableField \<Rightarrow> bool" where
  "layout_ok g f =
     (presence g < 0 \<longrightarrow>
        slot_clear_of g (offset f) (offset f + rep_width (rep f))
        \<and> (0 < presence f \<longrightarrow>
             slot_clear_of g (nat (presence f) div 8) (nat (presence f) div 8 + 1))
        \<and> (presence f < 0 \<longrightarrow> presence f = presence g
             \<or> slot_clear_of g (nat (NOT (presence f))) (nat (NOT (presence f)) + 4)))"

definition wf_table :: "upb_MiniTableField list \<Rightarrow> bool" where
  "wf_table fs =
     (\<forall>f \<in> set fs. \<not> is_extension f \<and> number f \<noteq> 0
        \<and> (\<forall>g \<in> set fs. layout_ok g f \<and> (number g = number f \<longrightarrow> g = f)))"

text \<open>
  The state of a oneof case slot that the spec requires: 0, or the number of exactly one
  member of the slot's group (a member carries the number, and no other member of the group
  does).
\<close>

definition oneof_inv :: "upb_MiniTableField list \<Rightarrow> upb_Message \<Rightarrow> bool" where
  "oneof_inv fs msg =
     (\<forall>f \<in> set fs. presence f < 0 \<longrightarrow>
        load32 (bytes msg) (nat (NOT (presence f))) = 0
        \<or> (\<exists>g \<in> set fs. presence g = presence f
              \<and> number g = load32 (bytes msg) (nat (NOT (presence f)))
              \<and> (\<forall>h \<in> set fs. presence h = presence f \<and> number h = number g \<longrightarrow> h = g)))"

text \<open>The mutating calls of the accessor layer, and what a caller may pass to them.\<close>

datatype accessor_call =
    SetNonExtensionField upb_MiniTableField buf
  | ClearNonExtensionField upb_MiniTableField
  | SetExtensionField upb_MiniTableExtension buf
  | ClearExtensionField upb_MiniTableExtension
  | SetField field_ptr buf
  | GetOrCreateMutableMap upb_MiniTableField nat nat

fun call_ok :: "upb_MiniTableField list \<Rightarrow> accessor_call \<Rightarrow> bool" where
  "call_ok fs (SetNonExtensionField f v) = (f \<in> set fs)"
| "call_ok fs (ClearNonExtensionField f) = (f \<in> set fs)"
| "call_ok fs (SetExtensionField e v) = is_extension (field e)"
| "call_ok fs (ClearExtensionField e) = is_extension (field e)"
| "call_ok fs (SetField (PlainField f) v) = (f \<in> set fs)"
| "call_ok fs (SetField (ExtField e) v) = is_extension (field e)"
| "call_ok fs (GetOrCreateMutableMap f ks vs) = (f \<in> set fs)"

fun run_call ::
  "upb_Message \<times> upb_Arena \<Rightarrow> accessor_call \<Rightarrow> (upb_Message \<times> upb_Arena) option" where
  "run_call (msg, a) (SetNonExtensionField f v) =
     map_option (\<lambda>m. (m, a)) (upb_Message_SetNonExtensionField msg f v)"
| "run_call (msg, a) (ClearNonExtensionField f) =
     map_option (\<lambda>m. (m, a)) (upb_Message_ClearNonExtensionField msg f)"
| "run_call (msg, a) (SetExtensionField e v) =
     (case upb_Message_SetExtensionField msg e v (Some a) of
        Some (ok, m, Some a') \<Rightarrow> Some (m, a')
      | _ \<Rightarrow> None)"
| "run_call (msg, a) (ClearExtensionField e) =
     Some (upb_Message_ClearExtensionField msg e, a)"
| "run_call (msg, a) (SetField p v) =
     (case upb_Message_SetField msg p v (Some a) of
        Some (ok, m, Some a') \<Rightarrow> Some (m, a')
      | _ \<Rightarrow> None)"
| "run_call (msg, a) (GetOrCreateMutableMap f ks vs) =
     (case upb_Message_GetOrCreateMutableMap msg f ks vs a of
        Some (r, m, a') \<Rightarrow> Some (m, a')
      | None \<Rightarrow> None)"

fun run_calls ::
  "upb_Message \<times> upb_Arena \<Rightarrow> accessor_call list \<Rightarrow> (upb_Message \<times> upb_Arena) option" where
  "run_calls s [] = Some s"
| "run_calls s (c # cs) =
     (case run_call s c of None \<Rightarrow> None | Some s' \<Rightarrow> run_calls s' cs)"

text \<open>At most one entry of the extension window per descriptor.\<close>

definition ext_window_distinct :: "upb_Message \<Rightarrow> bool" where
  "ext_window_distinct msg =
     (case internal msg of
        None \<Rightarrow> True
      | Some inl \<Rightarrow> distinct (map ext (drop (ext_begin inl) (ext_array inl))))"

section \<open>A message type to compute with\<close>

text \<open>
  The message type of the spec's end-to-end scenario: field A (4 bytes, tracked by hasbit 1),
  a oneof of B (number 10, string view) and C (number 11, 4 bytes) with its case slot at
  offset 8, field D (string view, implicit presence), and a map field M. Byte 0 holds the
  hasbits.
\<close>

definition field_A :: upb_MiniTableField where
  "field_A = \<lparr>number = 1, offset = 4, presence = 1, rep = kUpb_FieldRep_4Byte,
     mode = kUpb_FieldMode_Scalar, is_extension = False\<rparr>"

definition field_B :: upb_MiniTableField where
  "field_B = \<lparr>number = 10, offset = 16, presence = - 9, rep = kUpb_FieldRep_StringView,
     mode = kUpb_FieldMode_Scalar, is_extension = False\<rparr>"

definition field_C :: upb_MiniTableField where
  "field_C = \<lparr>number = 11, offset = 16, presence = - 9, rep = kUpb_FieldRep_4Byte,
     mode = kUpb_FieldMode_Scalar, is_extension = False\<rparr>"

definition field_D :: upb_MiniTableField where
  "field_D = \<lparr>number = 4, offset = 32, presence = 0, rep = kUpb_FieldRep_StringView,
     mode = kUpb_FieldMode_Scalar, is_extension = False\<rparr>"

definition field_M :: upb_MiniTableField where
  "field_M = \<lparr>number = 5, offset = 48, presence = 0, rep = kUpb_FieldRep_8Byte,
     mode = kUpb_FieldMode_Map, is_extension = False\<rparr>"

definition field_S :: upb_MiniTableField where
  "field_S = \<lparr>number = 6, offset = 56, presence = 2, rep = kUpb_FieldRep_StringView,
     mode = kUpb_FieldMode_Scalar, is_extension = False\<rparr>"

definition example_table :: "upb_MiniTableField list" where
  "example_table = [field_A, field_B, field_C, field_D, field_M, field_S]"

definition ext_X :: upb_MiniTableExtension where
  "ext_X = \<lparr>field = \<lparr>number = 100, offset = 0, presence = 0, rep = kUpb_FieldRep_4Byte,
     mode = kUpb_FieldMode_Scalar, is_extension = True\<rparr>, addr = 1000\<rparr>"

definition ext_Y :: upb_MiniTableExtension where
  "ext_Y = \<lparr>field = \<lparr>number = 101, offset = 0, presence = 0, rep = kUpb_FieldRep_8Byte,
     mode = kUpb_FieldMode_Scalar, is_extension = True\<rparr>, addr = 2000\<rparr>"

text \<open>The live entries of the extension array, front first.\<close>

definition ext_window :: "upb_Message \<Rightarrow> upb_Message_Extension list" where
  "ext_window msg =
     (case internal msg of None \<Rightarrow> [] | Some inl \<Rightarrow> drop (ext_begin inl) (ext_array inl))"

text \<open>A message holding the extensions Y (at the front of the window) and X.\<close>

definition msg_XY :: upb_Message where
  "msg_XY = new_message\<lparr>internal := Some \<lparr>ext_begin = 0, ext_array =
     [\<lparr>ext = addr ext_Y, data = buf_of [7]\<rparr>, \<lparr>ext = addr ext_X, data = buf_of [3]\<rparr>]\<rparr>\<rparr>"

text \<open>An arena that has nothing left to give.\<close>

definition empty_arena :: upb_Arena where
  "empty_arena = \<lparr>answers = [], requests = 0\<rparr>"

text \<open>What the getter yields for a map-shaped field read with a null default.\<close>

definition map_value :: "upb_Message \<Rightarrow> upb_MiniTableField \<Rightarrow> 64 word" where
  "map_value msg f =
     (if presence f < 0 \<and> load32 (bytes msg) (nat (NOT (presence f))) \<noteq> number f then 0
      else load64 (bytes msg) (offset f))"

text \<open>
  An arena with one block to give, and a message whose map field M (offset 48) already
  holds the reference 4096.
\<close>

definition arena_one :: upb_Arena where
  "arena_one = \<lparr>answers = [4096], requests = 0\<rparr>"

definition msg_with_map :: upb_Message where
  "msg_with_map = new_message\<lparr>bytes := buf_of (replicate 49 0 @ [16])\<rparr>"

text \<open>
  A run on the example type: B is set, then C, then B (no longer active) is cleared, and an
  extension is set with an arena that cannot serve it.
\<close>

definition example_calls :: "accessor_call list" where
  "example_calls =
     [SetField (PlainField field_B) (buf_of [120]),
      SetNonExtensionField field_C (buf_of [9]),
      ClearNonExtensionField field_B,
      SetField (ExtField ext_X) (buf_of [3])]"

section \<open>Facts about memory\<close>

lemma length_fetch [simp]: "length (fetch m a n) = n"
  by (simp add: fetch_def)

lemma nth_fetch [simp]: "i < n \<Longrightarrow> fetch m a n ! i = m (a + i)"
  by (simp add: fetch_def)

lemma fetch_eq_iff: "fetch m a n = fetch m' a' n \<longleftrightarrow> (\<forall>i<n. m (a + i) = m' (a' + i))"
  by (simp add: list_eq_iff_nth_eq)

lemma fetch_memcpy_same [simp]: "fetch (memcpy dst d src s n) d n = fetch src s n"
  by (simp add: fetch_eq_iff memcpy_def)

lemma memcpy_outside: "i < d \<or> d + n \<le> i \<Longrightarrow> memcpy dst d src s n i = dst i"
  by (auto simp: memcpy_def)

lemma memcpy_inside: "i < n \<Longrightarrow> memcpy dst d src s n (d + i) = src (s + i)"
  by (simp add: memcpy_def)

lemma memcmp_bytes_eq_0:
  "length xs = length ys \<Longrightarrow> memcmp_bytes xs ys = 0 \<longleftrightarrow> xs = ys"
  by (induction xs ys rule: memcmp_bytes.induct) auto

lemma memcmp_eq_0: "memcmp a b n = 0 \<longleftrightarrow> fetch a 0 n = fetch b 0 n"
  by (simp add: memcmp_def memcmp_bytes_eq_0)

lemma bit_le_word:
  "bit (le_word bs :: 'a::len word) k \<longleftrightarrow>
     k < LENGTH('a) \<and> k div 8 < length bs \<and> bit (bs ! (k div 8)) (k mod 8)"
proof (induction bs arbitrary: k)
  case Nil
  then show ?case by simp
next
  case (Cons b bs)
  show ?case
  proof (cases "k < 8")
    case True
    then show ?thesis
      by (auto simp: bit_simps dest: bit_imp_le_length)
  next
    case False
    then have k: "8 \<le> k" by simp
    then have d: "k div 8 = Suc ((k - 8) div 8)" "k mod 8 = (k - 8) mod 8"
      by (simp_all add: le_div_geq le_mod_geq)
    from k Cons.IH [of "k - 8"] show ?thesis
      by (auto simp: bit_simps d dest: bit_imp_le_length)
  qed
qed

lemma length_le_bytes [simp]: "length (le_bytes n w) = n"
  by (simp add: le_bytes_def)

lemma le_word_le_bytes:
  assumes "LENGTH('a::len) \<le> 8 * n"
  shows "le_word (le_bytes n (w :: 'a word)) = w"
proof (rule bit_word_eqI)
  fix k assume k: "k < LENGTH('a)"
  with assms have "k div 8 < n"
    by (simp add: less_mult_imp_div_less mult.commute)
  with k show "bit (le_word (le_bytes n w) :: 'a word) k = bit w k"
    by (simp add: bit_le_word le_bytes_def bit_simps)
qed

lemma le_word_eq_0:
  assumes "8 * length bs \<le> LENGTH('a::len)"
  shows "(le_word bs :: 'a word) = 0 \<longleftrightarrow> (\<forall>i<length bs. bs ! i = 0)"
proof
  assume z: "(le_word bs :: 'a word) = 0"
  show "\<forall>i<length bs. bs ! i = 0"
  proof (intro allI impI bit_word_eqI)
    fix i j assume i: "i < length bs" and j: "j < LENGTH(8)"
    then have "8 * i + j < LENGTH('a)" using assms by simp
    moreover have "(8 * i + j) div 8 = i" "(8 * i + j) mod 8 = j"
      using j by simp_all
    ultimately have "bit (le_word bs :: 'a word) (8 * i + j) = bit (bs ! i) j"
      using i by (simp add: bit_le_word)
    with z show "bit (bs ! i) j = bit (0 :: byte) j" by simp
  qed
next
  assume "\<forall>i<length bs. bs ! i = 0"
  then show "(le_word bs :: 'a word) = 0"
    by (intro bit_word_eqI) (simp add: bit_le_word)
qed

lemma fetch_buf_of [simp]: "fetch (buf_of bs) 0 (length bs) = bs"
  by (simp add: list_eq_iff_nth_eq buf_of_def)

lemma load32_store32 [simp]: "load32 (store32 m a w) a = w"
proof -
  have "fetch (buf_of (le_bytes 4 w)) 0 4 = le_bytes 4 w"
    using fetch_buf_of [of "le_bytes 4 w"] by simp
  then show ?thesis
    by (simp add: load32_def store32_def le_word_le_bytes)
qed

lemma store32_outside: "i < a \<or> a + 4 \<le> i \<Longrightarrow> store32 m a w i = m i"
  by (simp add: store32_def memcpy_outside)

lemma load32_cong:
  assumes "\<forall>i<4. m (a + i) = m' (a + i)"
  shows "load32 m a = load32 m' a"
proof -
  from assms have "fetch m a 4 = fetch m' a 4"
    by (simp add: fetch_eq_iff)
  then show ?thesis
    by (simp add: load32_def)
qed

lemma load64_eq_0: "load64 m a = 0 \<longleftrightarrow> (\<forall>i<8. m (a + i) = 0)"
  by (simp add: load64_def le_word_eq_0)

lemma CopyFieldData_eq:
  "upb_MiniTable_CopyFieldData dst d src s f = memcpy dst d src s (rep_width (rep f))"
  by (cases "rep f") (simp_all add: upb_MiniTable_CopyFieldData_def upb_MiniTableField_GetRep_def)

lemma Hasidx_pos [simp]: "0 < presence f \<Longrightarrow> upb_Message_Hasidx f = Some (nat (presence f))"
  by (simp add: upb_Message_Hasidx_def)

lemma oneofcase_field_neg [simp]:
  "presence f < 0 \<Longrightarrow> upb_oneofcase_field f = Some (nat (NOT (presence f)))"
  by (simp add: upb_oneofcase_field_def upb_oneofcase_ofs_def)

text \<open>The equations that evaluate the accessors on the example message type.\<close>

lemmas example_simps = field_A_def field_B_def field_C_def field_D_def field_M_def field_S_def
  new_message_def zeros_def fetch_def memcpy_def buf_of_def le_bytes_def upt_rec
  upb_MiniTable_ValueIsNonZero_def upb_MiniTableField_GetRep_def memcmp_def
  upb_Message_HasNonExtensionField_def upb_MiniTableField_HasPresence_def
  upb_MiniTableField_IsExtension_def upb_MiniTableField_InOneOf_def upb_hasbit_field_def
  upb_hasbit_def upb_hasbit_ofs_def upb_hasbit_mask_def upb_getoneofcase_field_def
  load32_def load64_def store32_def upb_StringView_size_def

section \<open>The presence tracker\<close>

text \<open>
  Claim C8. \<^verbatim>\<open>_upb_Message_SetPresence\<close> always returns, and its effect on the message is:
  when presence is positive, the byte at offset \<open>presence div 8\<close> is or-ed with the mask
  \<open>1 << (presence mod 8)\<close>, which sets the hasbit of index \<open>presence\<close> (the hasbit reads
  as set afterwards); when presence is negative, the field's number is written to the four
  bytes at offset \<open>NOT presence\<close> (that is \<open>- presence - 1\<close>), the oneof case slot (the
  slot reads as the number afterwards); when presence is zero the message is left as it is.
\<close>

theorem SetPresence_effect:
  "\<exists>m. upb_Message_SetPresence msg f = Some m
       \<and> m = (if 0 < presence f then
                 msg\<lparr>bytes := (bytes msg)
                   (nat (presence f) div 8 :=
                      bytes msg (nat (presence f) div 8) OR push_bit (nat (presence f) mod 8) 1)\<rparr>
               else if presence f < 0 then
                 msg\<lparr>bytes := store32 (bytes msg) (nat (- presence f - 1)) (number f)\<rparr>
               else msg)
       \<and> (0 < presence f \<longrightarrow> upb_hasbit_field m f = Some True)
       \<and> (presence f < 0 \<longrightarrow> upb_getoneofcase_field m f = Some (number f))"
proof -
  have "(x OR push_bit (k mod 8) 1) AND push_bit (k mod 8) 1 \<noteq> (0 :: byte)" for x and k :: nat
  proof
    assume z: "(x OR push_bit (k mod 8) 1) AND push_bit (k mod 8) 1 = 0"
    have "bit ((x OR push_bit (k mod 8) 1) AND push_bit (k mod 8) (1 :: byte)) (k mod 8)"
      by (simp add: bit_simps)
    then have "bit (0 :: byte) (k mod 8)" by (simp only: z)
    then show False by simp
  qed
  then show ?thesis
    by (simp add: upb_Message_SetPresence_def upb_sethas_field_def upb_sethas_def
        upb_hasbit_field_def upb_hasbit_def upb_getoneofcase_field_def
        upb_hasbit_ofs_def upb_hasbit_mask_def upb_MiniTableField_InOneOf_def not_int_def)
qed

text \<open>
  On a new message: field A (hasbit 1) gets bit 1 of byte 0, field C (case slot at offset 8,
  number 11) gets 11 in the slot, field D (no presence) changes nothing.
\<close>

theorem SetPresence_effect_witness:
  "(\<exists>m. upb_Message_SetPresence new_message field_A = Some m \<and> fetch (bytes m) 0 2 = [2, 0]
        \<and> upb_hasbit_field m field_A = Some True)
   \<and> (\<exists>m. upb_Message_SetPresence new_message field_C = Some m
        \<and> fetch (bytes m) 8 4 = [11, 0, 0, 0]
        \<and> upb_getoneofcase_field m field_C = Some 11)
   \<and> upb_Message_SetPresence new_message field_D = Some new_message"
  using SetPresence_effect [of new_message field_A] SetPresence_effect [of new_message field_C]
    SetPresence_effect [of new_message field_D]
  by (simp add: field_A_def field_C_def field_D_def new_message_def zeros_def fetch_def
      store32_def memcpy_def buf_of_def le_bytes_def upt_rec)

section \<open>The representation transcoder\<close>

text \<open>
  Claim C9. For the 1-byte, 4-byte and 8-byte classes \<^verbatim>\<open>_upb_MiniTable_ValueIsNonZero\<close> is
  true exactly when the value's bytes of that width are not all zero. For the string-view
  class it is true exactly when the length field is non-zero, and the length field is
  non-zero exactly when one of the bytes 8 to 15 is: the pointer field (bytes 0 to 7) plays
  no part, so a view of length 0 with a non-null pointer is a zero value.
\<close>

theorem ValueIsNonZero_iff:
  "upb_MiniTable_ValueIsNonZero v f =
     (if rep f = kUpb_FieldRep_StringView then upb_StringView_size v \<noteq> 0
      else fetch v 0 (rep_width (rep f)) \<noteq> replicate (rep_width (rep f)) 0)
   \<and> (upb_StringView_size v \<noteq> 0) = (\<exists>i<8. v (8 + i) \<noteq> 0)"
proof -
  have z: "fetch zeros 0 n = replicate n 0" for n
    by (simp add: list_eq_iff_nth_eq zeros_def)
  have "upb_MiniTable_ValueIsNonZero v f =
     (if rep f = kUpb_FieldRep_StringView then upb_StringView_size v \<noteq> 0
      else fetch v 0 (rep_width (rep f)) \<noteq> replicate (rep_width (rep f)) 0)"
    by (cases "rep f")
      (auto simp: upb_MiniTable_ValueIsNonZero_def upb_MiniTableField_GetRep_def memcmp_eq_0 z)
  moreover have "(upb_StringView_size v \<noteq> 0) = (\<exists>i<8. v (8 + i) \<noteq> 0)"
    by (auto simp: upb_StringView_size_def load64_eq_0)
  ultimately show ?thesis by simp
qed

text \<open>
  A string view of length 0 at a non-null address is zero, one of length 512 at a null
  address is not; for a 4-byte field only the first four bytes count.
\<close>

theorem ValueIsNonZero_iff_witness:
  "\<not> upb_MiniTable_ValueIsNonZero (buf_of [1, 0, 0, 0, 0, 0, 0, 0]) field_S
   \<and> upb_MiniTable_ValueIsNonZero (buf_of [0, 0, 0, 0, 0, 0, 0, 0, 0, 2]) field_S
   \<and> upb_MiniTable_ValueIsNonZero (buf_of [0, 0, 1, 0]) field_A
   \<and> \<not> upb_MiniTable_ValueIsNonZero (buf_of [0, 0, 0, 0, 1]) field_A"
proof -
  have r: "rep field_S = kUpb_FieldRep_StringView" "rep field_A = kUpb_FieldRep_4Byte"
    by (simp_all add: field_S_def field_A_def)
  have s1: "\<not> (\<exists>i<8. buf_of [1, 0, 0, 0, 0, 0, 0, 0] (8 + i) \<noteq> 0)"
    by (simp add: buf_of_def)
  have s2: "\<exists>i<8. buf_of [0, 0, 0, 0, 0, 0, 0, 0, 0, 2] (8 + i) \<noteq> 0"
    by (rule exI [of _ 1]) (simp add: buf_of_def)
  have a1: "fetch (buf_of [0, 0, 1, 0]) 0 4 \<noteq> replicate 4 0"
    by (simp add: fetch_def buf_of_def upt_rec numeral_eq_Suc)
  have a2: "fetch (buf_of [0, 0, 0, 0, 1]) 0 4 = replicate 4 0"
    by (simp add: list_eq_iff_nth_eq buf_of_def less_Suc_eq numeral_eq_Suc)
  show ?thesis
    using ValueIsNonZero_iff [of "buf_of [1, 0, 0, 0, 0, 0, 0, 0]" field_S]
      ValueIsNonZero_iff [of "buf_of [0, 0, 0, 0, 0, 0, 0, 0, 0, 2]" field_S]
      ValueIsNonZero_iff [of "buf_of [0, 0, 1, 0]" field_A]
      ValueIsNonZero_iff [of "buf_of [0, 0, 0, 0, 1]" field_A]
      s1 s2 a1 a2
    by (simp add: r)
qed

section \<open>Reading a field of the message\<close>

text \<open>
  Claim C1. For a descriptor that is not an extension, and a default value that is non-zero
  only if the descriptor has presence, \<^verbatim>\<open>_upb_Message_GetNonExtensionField\<close> returns, and
  the output buffer receives the default value when the field is in a oneof or the default
  is non-zero for the field's representation class, and the field is not "has"; in every
  other case it receives the bytes stored at the field's offset.
\<close>

theorem GetNonExtensionField_spec:
  assumes "\<not> is_extension f"
    and "upb_MiniTable_ValueIsNonZero d f \<longrightarrow> presence f \<noteq> 0"
  shows "upb_Message_GetNonExtensionField msg f d out =
     Some (if (presence f < 0 \<or> upb_MiniTable_ValueIsNonZero d f)
              \<and> upb_Message_HasNonExtensionField msg f = Some False
           then memcpy out 0 d 0 (rep_width (rep f))
           else memcpy out 0 (bytes msg) (offset f) (rep_width (rep f)))"
  using assms
  by (auto simp: upb_Message_GetNonExtensionField_def upb_Message_HasNonExtensionField_def
      upb_MiniTableField_IsExtension_def upb_MiniTableField_InOneOf_def
      upb_MiniTableField_HasPresence_def upb_getoneofcase_field_def upb_hasbit_field_def
      upb_MiniTableField_GetConstPtr_def CopyFieldData_eq split: option.splits)

text \<open>Field A of a new message, read with the default 5: the default comes back.\<close>

theorem GetNonExtensionField_spec_witness:
  "\<not> is_extension field_A \<and> presence field_A \<noteq> 0
   \<and> map_option (\<lambda>b. fetch b 0 4)
        (upb_Message_GetNonExtensionField new_message field_A (buf_of [5, 0, 0, 0]) zeros)
       = Some [5, 0, 0, 0]"
  using GetNonExtensionField_spec [of field_A "buf_of [5, 0, 0, 0]" new_message zeros]
  by (simp add: example_simps)

section \<open>Clearing a oneof member that is not the active one\<close>

text \<open>
  Claim C2. For a descriptor with negative presence, if the oneof case slot of the message
  does not hold the descriptor's field number, \<^verbatim>\<open>_upb_Message_ClearNonExtensionField\<close>
  returns the message it was given: the case slot, the field's storage and every other byte
  are as before.
\<close>

theorem Clear_inactive_oneof_noop:
  assumes "presence f < 0"
    and "upb_getoneofcase_field msg f \<noteq> Some (number f)"
  shows "upb_Message_ClearNonExtensionField msg f = Some msg"
  using assms
  by (simp add: upb_Message_ClearNonExtensionField_def upb_getoneofcase_field_def
      upb_MiniTableField_InOneOf_def)

text \<open>The case slot holds 10 (member B); clearing member C (number 11) changes nothing.\<close>

theorem Clear_inactive_oneof_noop_witness:
  "presence field_C < 0
   \<and> upb_getoneofcase_field (new_message\<lparr>bytes := buf_of [0, 0, 0, 0, 0, 0, 0, 0, 10]\<rparr>) field_C
       = Some 10
   \<and> Some 10 \<noteq> Some (number field_C)
   \<and> upb_Message_ClearNonExtensionField
        (new_message\<lparr>bytes := buf_of [0, 0, 0, 0, 0, 0, 0, 0, 10]\<rparr>) field_C
       = Some (new_message\<lparr>bytes := buf_of [0, 0, 0, 0, 0, 0, 0, 0, 10]\<rparr>)"
  using Clear_inactive_oneof_noop
    [of field_C "new_message\<lparr>bytes := buf_of [0, 0, 0, 0, 0, 0, 0, 0, 10]\<rparr>"]
  by (simp add: example_simps)

section \<open>Fields tracked by a hasbit\<close>

lemma hasbit_mask_neq_0 [simp]: "upb_hasbit_mask idx \<noteq> 0"
proof -
  have "bit (upb_hasbit_mask idx) (idx mod 8)"
    by (simp add: upb_hasbit_mask_def bit_simps)
  then show ?thesis by auto
qed

lemma or_and_mask [simp]: "(x OR m) AND m = (m :: byte)"
  by (rule bit_word_eqI) (auto simp: bit_simps)

lemma and_not_and_mask [simp]: "(x AND NOT m) AND m = (0 :: byte)"
  by (rule bit_word_eqI) (auto simp: bit_simps)

lemma hasbit_sethas [simp]: "upb_hasbit (upb_sethas msg idx) idx"
  by (simp add: upb_hasbit_def upb_sethas_def)

lemma hasbit_clearhas [simp]: "\<not> upb_hasbit (upb_clearhas msg idx) idx"
  by (simp add: upb_hasbit_def upb_clearhas_def)

lemma hasbit_bytes_cong:
  "bytes m (upb_hasbit_ofs idx) = bytes m' (upb_hasbit_ofs idx) \<Longrightarrow> upb_hasbit m idx = upb_hasbit m' idx"
  by (simp add: upb_hasbit_def)

lemma SetNonExtensionField_eq:
  "\<not> is_extension f \<Longrightarrow>
   upb_Message_SetNonExtensionField msg f v =
     map_option (\<lambda>m. m\<lparr>bytes := memcpy (bytes m) (offset f) v 0 (rep_width (rep f))\<rparr>)
       (upb_Message_SetPresence msg f)"
  by (simp add: upb_Message_SetNonExtensionField_def upb_MiniTableField_IsExtension_def
      upb_MiniTableField_GetPtr_def CopyFieldData_eq split: option.splits)

lemma SetPresence_hasbit:
  "0 < presence f \<Longrightarrow> upb_Message_SetPresence msg f = Some (upb_sethas msg (nat (presence f)))"
  by (simp add: upb_Message_SetPresence_def upb_sethas_field_def)

lemma GetNonExtensionField_hasbit:
  "0 < presence f \<Longrightarrow> \<not> is_extension f \<Longrightarrow>
   upb_Message_GetNonExtensionField msg f d out =
     Some (if upb_MiniTable_ValueIsNonZero d f \<and> \<not> upb_hasbit msg (nat (presence f))
           then memcpy out 0 d 0 (rep_width (rep f))
           else memcpy out 0 (bytes msg) (offset f) (rep_width (rep f)))"
  by (simp add: upb_Message_GetNonExtensionField_def upb_Message_HasNonExtensionField_def
      upb_MiniTableField_IsExtension_def upb_MiniTableField_InOneOf_def
      upb_MiniTableField_HasPresence_def upb_hasbit_field_def
      upb_MiniTableField_GetConstPtr_def CopyFieldData_eq)

lemma HasNonExtensionField_hasbit:
  "0 < presence f \<Longrightarrow> \<not> is_extension f \<Longrightarrow>
   upb_Message_HasNonExtensionField msg f = Some (upb_hasbit msg (nat (presence f)))"
  by (simp add: upb_Message_HasNonExtensionField_def
      upb_MiniTableField_IsExtension_def upb_MiniTableField_InOneOf_def
      upb_MiniTableField_HasPresence_def upb_hasbit_field_def)

lemma ClearNonExtensionField_hasbit:
  "0 < presence f \<Longrightarrow>
   upb_Message_ClearNonExtensionField msg f =
     Some ((upb_clearhas msg (nat (presence f)))
       \<lparr>bytes := memcpy (bytes (upb_clearhas msg (nat (presence f)))) (offset f) zeros 0
          (rep_width (rep f))\<rparr>)"
  by (simp add: upb_Message_ClearNonExtensionField_def upb_MiniTableField_GetPtr_def
      CopyFieldData_eq)

lemma memcpy_memcpy_same [simp]:
  "memcpy out 0 (memcpy m a v 0 n) a n = memcpy out 0 v 0 n"
  by (auto simp: memcpy_def fun_eq_iff)

lemma fetch_zeros: "fetch zeros a n = replicate n 0"
  by (simp add: list_eq_iff_nth_eq zeros_def)

lemma ValueIsNonZero_zero_copy:
  "\<not> upb_MiniTable_ValueIsNonZero (memcpy out 0 zeros 0 (rep_width (rep f))) f"
proof (cases "rep f")
  case kUpb_FieldRep_StringView
  then show ?thesis
    by (simp add: upb_MiniTable_ValueIsNonZero_def upb_MiniTableField_GetRep_def
        upb_StringView_size_def load64_eq_0 memcpy_def zeros_def)
qed (simp_all add: upb_MiniTable_ValueIsNonZero_def upb_MiniTableField_GetRep_def memcmp_eq_0
    fetch_zeros)

lemma same_value_bytes:
  assumes "rep f \<noteq> kUpb_FieldRep_StringView"
  shows "same_value f a b \<longleftrightarrow> fetch a 0 (rep_width (rep f)) = fetch b 0 (rep_width (rep f))"
proof -
  have "fetch a 0 (rep_width (rep f)) = fetch zeros 0 (rep_width (rep f))"
    if "\<not> upb_MiniTable_ValueIsNonZero a f" for a
    using that assms
    by (cases "rep f")
      (simp_all add: upb_MiniTable_ValueIsNonZero_def upb_MiniTableField_GetRep_def memcmp_eq_0)
  then show ?thesis
    unfolding same_value_def by metis
qed

text \<open>
  Claim C4. For a descriptor with positive presence that is not an extension, laid out as a
  table generator lays it out (the byte of its hasbit outside the field's own storage), and
  for every value \<open>v\<close>: after \<^verbatim>\<open>_upb_Message_SetNonExtensionField\<close> the field is "has" and
  the getter returns \<open>v\<close>; after \<^verbatim>\<open>_upb_Message_ClearNonExtensionField\<close> the field is not
  "has", the bytes of its storage are all zero, and the getter returns the default value.
  The returned value is the default as a value of the field's representation class
  (\<open>same_value\<close>): its bytes are the default's when the default is non-zero, and always
  for the 1-byte, 4-byte and 8-byte classes; for a string-view default of length 0 the
  getter hands back the stored zero view, which is the same zero value.
\<close>

theorem hasbit_field_set_clear:
  assumes "0 < presence f" and "\<not> is_extension f"
    and "nat (presence f) div 8 < offset f
           \<or> offset f + rep_width (rep f) \<le> nat (presence f) div 8"
  shows "(\<exists>m. upb_Message_SetNonExtensionField msg f v = Some m
           \<and> upb_Message_HasNonExtensionField m f = Some True
           \<and> upb_Message_GetNonExtensionField m f d out =
               Some (memcpy out 0 v 0 (rep_width (rep f))))
       \<and> (\<exists>m g. upb_Message_ClearNonExtensionField msg f = Some m
           \<and> upb_Message_HasNonExtensionField m f = Some False
           \<and> fetch (bytes m) (offset f) (rep_width (rep f)) = replicate (rep_width (rep f)) 0
           \<and> upb_Message_GetNonExtensionField m f d out = Some g
           \<and> same_value f g d
           \<and> g = memcpy out 0 (if upb_MiniTable_ValueIsNonZero d f then d else zeros) 0
                    (rep_width (rep f))
           \<and> (rep f \<noteq> kUpb_FieldRep_StringView \<longrightarrow>
                fetch g 0 (rep_width (rep f)) = fetch d 0 (rep_width (rep f))))"
proof (intro conjI)
  let ?idx = "nat (presence f)" and ?n = "rep_width (rep f)"
  let ?s = "(upb_sethas msg ?idx)\<lparr>bytes :=
              memcpy (bytes (upb_sethas msg ?idx)) (offset f) v 0 ?n\<rparr>"
  have set: "upb_Message_SetNonExtensionField msg f v = Some ?s"
    using assms(1,2) by (simp add: SetNonExtensionField_eq SetPresence_hasbit)
  have "bytes ?s (upb_hasbit_ofs ?idx) = bytes (upb_sethas msg ?idx) (upb_hasbit_ofs ?idx)"
    using assms(3) by (simp add: memcpy_outside upb_hasbit_ofs_def)
  then have has: "upb_hasbit ?s ?idx"
    using hasbit_bytes_cong [of ?s ?idx "upb_sethas msg ?idx"] by simp
  show "\<exists>m. upb_Message_SetNonExtensionField msg f v = Some m
           \<and> upb_Message_HasNonExtensionField m f = Some True
           \<and> upb_Message_GetNonExtensionField m f d out = Some (memcpy out 0 v 0 ?n)"
    using assms(1,2) set has
    by (simp add: HasNonExtensionField_hasbit GetNonExtensionField_hasbit)
next
  let ?idx = "nat (presence f)" and ?n = "rep_width (rep f)"
  let ?c = "(upb_clearhas msg ?idx)\<lparr>bytes :=
              memcpy (bytes (upb_clearhas msg ?idx)) (offset f) zeros 0 ?n\<rparr>"
  let ?g = "memcpy out 0 (if upb_MiniTable_ValueIsNonZero d f then d else zeros) 0 ?n"
  have clr: "upb_Message_ClearNonExtensionField msg f = Some ?c"
    using assms(1) by (simp add: ClearNonExtensionField_hasbit)
  have nhas: "\<not> upb_hasbit ?c ?idx"
    by (simp add: upb_hasbit_def upb_clearhas_def memcpy_def zeros_def)
  have has: "upb_Message_HasNonExtensionField ?c f = Some False"
    using assms(1,2) nhas by (simp add: HasNonExtensionField_hasbit)
  have zero: "fetch (bytes ?c) (offset f) ?n = replicate ?n 0"
    by (simp add: fetch_zeros)
  have get: "upb_Message_GetNonExtensionField ?c f d out = Some ?g"
    using assms(1,2) nhas by (simp add: GetNonExtensionField_hasbit)
  have same: "same_value f ?g d"
    by (simp add: same_value_def ValueIsNonZero_zero_copy)
  have bytes: "fetch ?g 0 ?n = fetch d 0 ?n" if "rep f \<noteq> kUpb_FieldRep_StringView"
    using same same_value_bytes [OF that] by simp
  from clr has zero get same bytes
  show "\<exists>m g. upb_Message_ClearNonExtensionField msg f = Some m
           \<and> upb_Message_HasNonExtensionField m f = Some False
           \<and> fetch (bytes m) (offset f) ?n = replicate ?n 0
           \<and> upb_Message_GetNonExtensionField m f d out = Some g
           \<and> same_value f g d
           \<and> g = memcpy out 0 (if upb_MiniTable_ValueIsNonZero d f then d else zeros) 0 ?n
           \<and> (rep f \<noteq> kUpb_FieldRep_StringView \<longrightarrow> fetch g 0 ?n = fetch d 0 ?n)"
    by blast
qed

text \<open>
  Field A (4 bytes at offset 4, hasbit 1), written with 9 and read with the default 5; and
  the string-view field S, cleared and read with the empty string held at a non-null
  address as its default.
\<close>

theorem hasbit_field_set_clear_witness:
  "0 < presence field_A \<and> \<not> is_extension field_A
   \<and> nat (presence field_A) div 8 < offset field_A
   \<and> (\<exists>m. upb_Message_SetNonExtensionField new_message field_A (buf_of [9, 0, 0, 0]) = Some m
         \<and> upb_Message_HasNonExtensionField m field_A = Some True
         \<and> upb_Message_GetNonExtensionField m field_A (buf_of [5, 0, 0, 0]) zeros =
             Some (memcpy zeros 0 (buf_of [9, 0, 0, 0]) 0 4))
   \<and> (\<exists>m g. upb_Message_ClearNonExtensionField new_message field_A = Some m
         \<and> upb_Message_HasNonExtensionField m field_A = Some False
         \<and> fetch (bytes m) 4 4 = replicate 4 0
         \<and> upb_Message_GetNonExtensionField m field_A (buf_of [5, 0, 0, 0]) zeros = Some g
         \<and> fetch g 0 4 = fetch (buf_of [5, 0, 0, 0]) 0 4)
   \<and> 0 < presence field_S \<and> \<not> is_extension field_S
   \<and> nat (presence field_S) div 8 < offset field_S
   \<and> (\<exists>m g. upb_Message_ClearNonExtensionField new_message field_S = Some m
         \<and> upb_Message_HasNonExtensionField m field_S = Some False
         \<and> upb_Message_GetNonExtensionField m field_S (buf_of [1]) zeros = Some g
         \<and> same_value field_S g (buf_of [1]))"
proof -
  have a: "0 < presence field_A" "\<not> is_extension field_A"
    "nat (presence field_A) div 8 < offset field_A"
    and ra: "rep field_A = kUpb_FieldRep_4Byte" "offset field_A = 4"
    by (simp_all add: field_A_def)
  have s: "0 < presence field_S" "\<not> is_extension field_S"
    "nat (presence field_S) div 8 < offset field_S"
    by (simp_all add: field_S_def)
  note ta = hasbit_field_set_clear [OF a(1,2) disjI1 [OF a(3)], of new_message
      "buf_of [9, 0, 0, 0]" "buf_of [5, 0, 0, 0]" zeros]
  note ts = hasbit_field_set_clear [OF s(1,2) disjI1 [OF s(3)], of new_message
      zeros "buf_of [1]" zeros]
  from ta have a1: "\<exists>m. upb_Message_SetNonExtensionField new_message field_A (buf_of [9, 0, 0, 0])
           = Some m
         \<and> upb_Message_HasNonExtensionField m field_A = Some True
         \<and> upb_Message_GetNonExtensionField m field_A (buf_of [5, 0, 0, 0]) zeros =
             Some (memcpy zeros 0 (buf_of [9, 0, 0, 0]) 0 4)"
    by (simp add: ra)
  from ta have a2: "\<exists>m g. upb_Message_ClearNonExtensionField new_message field_A = Some m
         \<and> upb_Message_HasNonExtensionField m field_A = Some False
         \<and> fetch (bytes m) 4 4 = replicate 4 0
         \<and> upb_Message_GetNonExtensionField m field_A (buf_of [5, 0, 0, 0]) zeros = Some g
         \<and> fetch g 0 4 = fetch (buf_of [5, 0, 0, 0]) 0 4"
    unfolding ra by (elim conjE exE) (auto simp: ra)
  from ts have s2: "\<exists>m g. upb_Message_ClearNonExtensionField new_message field_S = Some m
         \<and> upb_Message_HasNonExtensionField m field_S = Some False
         \<and> upb_Message_GetNonExtensionField m field_S (buf_of [1]) zeros = Some g
         \<and> same_value field_S g (buf_of [1])"
    by (elim conjE exE) blast
  from a a1 a2 s s2 show ?thesis by (intro conjI)
qed

section \<open>Clearing an extension\<close>

lemma find_map_nth:
  "List.find P (map f xs) = map_option f (List.find (\<lambda>x. P (f x)) xs)"
  by (induction xs) simp_all

lemma drop_as_map_nth: "drop b xs = map ((!) xs) [b..<length xs]"
proof -
  have "drop b (map ((!) xs) [0..<length xs]) = map ((!) xs) [b..<length xs]"
    by (simp add: drop_map)
  then show ?thesis by (simp add: map_nth)
qed

lemma find_window:
  "map_option ((!) xs) (List.find (\<lambda>i. P (xs ! i)) [b..<length xs]) = List.find P (drop b xs)"
  by (simp add: drop_as_map_nth [of b xs] find_map_nth)

lemma Getext_window:
  "map_option snd (upb_Message_Getext msg e) = List.find (\<lambda>x. ext x = addr e) (ext_window msg)"
proof (cases "internal msg")
  case None
  then show ?thesis by (simp add: upb_Message_Getext_def ext_window_def)
next
  case (Some inl)
  have "map_option snd (upb_Message_Getext msg e) =
      map_option ((!) (ext_array inl))
        (List.find (\<lambda>i. ext (ext_array inl ! i) = addr e)
           [ext_begin inl ..< length (ext_array inl)])"
    using Some by (simp add: upb_Message_Getext_def option.map_comp comp_def)
  also have "\<dots> = List.find (\<lambda>x. ext x = addr e) (drop (ext_begin inl) (ext_array inl))"
    by (rule find_window [of "ext_array inl" "\<lambda>x. ext x = addr e" "ext_begin inl"])
  finally show ?thesis using Some by (simp add: ext_window_def)
qed

lemma Getext_SomeD:
  assumes "upb_Message_Getext msg e = Some (i, x)" and "internal msg = Some inl"
  shows "ext_begin inl \<le> i" "i < length (ext_array inl)" "x = ext_array inl ! i"
    "ext x = addr e"
proof -
  from assms have f: "List.find (\<lambda>i. ext (ext_array inl ! i) = addr e)
      [ext_begin inl ..< length (ext_array inl)] = Some i" and x: "x = ext_array inl ! i"
    by (auto simp: upb_Message_Getext_def)
  from f obtain k where k: "k < length [ext_begin inl ..< length (ext_array inl)]"
      "ext (ext_array inl ! ([ext_begin inl ..< length (ext_array inl)] ! k)) = addr e"
      "i = [ext_begin inl ..< length (ext_array inl)] ! k"
    unfolding find_Some_iff by blast
  then have i: "i = ext_begin inl + k" "k < length (ext_array inl) - ext_begin inl"
    by simp_all
  show "ext_begin inl \<le> i" "i < length (ext_array inl)" using i by simp_all
  show "x = ext_array inl ! i" by (rule x)
  show "ext x = addr e" using k x by simp
qed

lemma keyed_find:
  "distinct (map ext L) \<Longrightarrow>
   (List.find (\<lambda>x. ext x = a) L = Some y) = (y \<in> set L \<and> ext y = a)"
  by (induction L) (auto simp: image_iff)

lemma option_eqI: "(\<And>y. (a = Some y) = (b = Some y)) \<Longrightarrow> a = b"
  by (cases a; cases b) auto

lemma window_after_removal:
  assumes "distinct (map ext W)" and "k < length W"
  shows "set (tl (W[k := W ! 0])) = set W - {W ! k}"
    and "distinct (map ext (tl (W[k := W ! 0])))"
proof -
  from assms(2) obtain w T where W: "W = w # T" by (cases W) auto
  from assms(1) have d: "distinct W" by (rule distinct_map [THEN iffD1, THEN conjunct1])
  show "set (tl (W[k := W ! 0])) = set W - {W ! k}"
  proof (cases k)
    case 0
    with d W show ?thesis by auto
  next
    case (Suc j)
    with assms(2) W have j: "j < length T" by simp
    with d W have "T ! j \<noteq> w" by auto
    with d W j Suc show ?thesis
      by (auto simp: set_update_distinct)
  qed
  show "distinct (map ext (tl (W[k := W ! 0])))"
  proof (cases k)
    case 0
    with assms(1) W show ?thesis by simp
  next
    case (Suc j)
    with assms(2) W have j: "j < length T" by simp
    from assms(1) W have "distinct (map ext T)" "ext w \<notin> set (map ext T)" by simp_all
    then have "distinct ((map ext T)[j := ext w])"
      by (intro distinct_list_update) auto
    with Suc W show ?thesis by (simp add: map_update)
  qed
qed

lemma ClearExtensionField_window:
  assumes "upb_Message_Getext msg e = Some (i, x)" and "internal msg = Some inl"
  shows "ext_window (upb_Message_ClearExtensionField msg e) =
           tl ((ext_window msg)[i - ext_begin inl := ext_window msg ! 0])"
    and "i - ext_begin inl < length (ext_window msg)"
    and "ext_window msg ! (i - ext_begin inl) = x"
proof -
  note g = Getext_SomeD [OF assms]
  have "drop (Suc (ext_begin inl)) ((ext_array inl)[i := ext_array inl ! ext_begin inl])
      = tl (drop (ext_begin inl) ((ext_array inl)[i := ext_array inl ! ext_begin inl]))"
    by (simp add: drop_Suc drop_tl)
  also have "\<dots> = tl ((drop (ext_begin inl) (ext_array inl))
      [i - ext_begin inl := ext_array inl ! ext_begin inl])"
    using g(1) by (simp add: drop_update_swap)
  finally show "ext_window (upb_Message_ClearExtensionField msg e) =
           tl ((ext_window msg)[i - ext_begin inl := ext_window msg ! 0])"
    using assms g(1,2) by (simp add: upb_Message_ClearExtensionField_def ext_window_def)
  show "i - ext_begin inl < length (ext_window msg)"
    using assms g(1,2) by (simp add: ext_window_def)
  show "ext_window msg ! (i - ext_begin inl) = x"
    using assms g(1,2,3) by (simp add: ext_window_def)
qed

lemma GetExtensionField_window:
  "upb_Message_GetExtensionField msg e d out =
     (if \<not> is_extension (field e) then None
      else Some (memcpy out 0
        (case List.find (\<lambda>x. ext x = addr e) (ext_window msg) of
           Some x \<Rightarrow> data x | None \<Rightarrow> d) 0 (rep_width (rep (field e)))))"
  unfolding Getext_window [symmetric]
  by (simp add: upb_Message_GetExtensionField_def upb_MiniTableField_IsExtension_def
      CopyFieldData_eq split: option.splits)

lemma HasExtensionField_window:
  "upb_Message_HasExtensionField msg e =
     (if \<not> upb_MiniTableField_HasPresence (field e) then None
      else Some (List.find (\<lambda>x. ext x = addr e) (ext_window msg) \<noteq> None))"
  unfolding Getext_window [symmetric]
  by (simp add: upb_Message_HasExtensionField_def)

lemma ext_window_distinct_eq: "ext_window_distinct msg = distinct (map ext (ext_window msg))"
  by (simp add: ext_window_distinct_def ext_window_def split: option.splits)

text \<open>
  Claim C3. Let the extension window of a message hold at most one entry per descriptor,
  and let \<open>E\<close> be an extension descriptor (not repeated) whose entry the lookup finds at
  place \<open>i\<close>. Then \<^verbatim>\<open>_upb_Message_ClearExtensionField\<close> overwrites entry \<open>i\<close> with a copy
  of the front entry and advances \<open>ext_begin\<close> by one entry; afterwards \<open>E\<close> is not "has",
  the getter of \<open>E\<close> returns the default, and for every other extension descriptor the
  getter returns what it returned before the clear. The window still holds at most one
  entry per descriptor; that every message built by the accessors from a new one has such a
  window is lemma \<open>ext_window_distinct_from_new\<close> below.
\<close>

theorem ClearExtensionField_spec:
  assumes "ext_window_distinct msg"
    and "upb_Message_Getext msg E = Some (i, x)"
    and "internal msg = Some inl"
    and "is_extension (field E)"
    and "upb_MiniTableField_HasPresence (field E)"
  shows "upb_Message_ClearExtensionField msg E =
           msg\<lparr>internal := Some (inl\<lparr>
             ext_array := (ext_array inl)[i := ext_array inl ! ext_begin inl],
             ext_begin := ext_begin inl + 1\<rparr>)\<rparr>
       \<and> upb_Message_HasExtensionField (upb_Message_ClearExtensionField msg E) E = Some False
       \<and> upb_Message_GetExtensionField (upb_Message_ClearExtensionField msg E) E d out =
           Some (memcpy out 0 d 0 (rep_width (rep (field E))))
       \<and> (\<forall>E' d' out'. addr E' \<noteq> addr E \<longrightarrow>
            upb_Message_GetExtensionField (upb_Message_ClearExtensionField msg E) E' d' out' =
            upb_Message_GetExtensionField msg E' d' out')
       \<and> ext_window_distinct (upb_Message_ClearExtensionField msg E)"
proof -
  let ?W = "ext_window msg" and ?W' = "ext_window (upb_Message_ClearExtensionField msg E)"
  let ?k = "i - ext_begin inl"
  note w = ClearExtensionField_window [OF assms(2,3)]
  note g = Getext_SomeD [OF assms(2,3)]
  have dW: "distinct (map ext ?W)"
    using assms(1) by (simp add: ext_window_distinct_eq)
  have set': "set ?W' = set ?W - {x}" and dW': "distinct (map ext ?W')"
    using window_after_removal [OF dW w(2)] w(1,3) by simp_all
  have xW: "x \<in> set ?W"
    using w(2,3) nth_mem by fastforce
  have inj: "inj_on ext (set ?W)"
    using dW by (simp add: distinct_map)
  have gone: "List.find (\<lambda>y. ext y = addr E) ?W' = None"
  proof -
    have "\<And>y. y \<in> set ?W' \<Longrightarrow> ext y \<noteq> addr E"
    proof
      fix y assume y: "y \<in> set ?W'" and "ext y = addr E"
      with g(4) have "ext y = ext x" by simp
      moreover from y set' have "y \<in> set ?W" "y \<noteq> x" by auto
      ultimately show False using inj xW by (auto dest: inj_onD)
    qed
    then show ?thesis by (auto simp: find_None_iff)
  qed
  have other: "List.find (\<lambda>y. ext y = a) ?W' = List.find (\<lambda>y. ext y = a) ?W"
    if "a \<noteq> addr E" for a
  proof (rule option_eqI)
    fix y
    show "(List.find (\<lambda>y. ext y = a) ?W' = Some y) = (List.find (\<lambda>y. ext y = a) ?W = Some y)"
      using that g(4) by (auto simp: keyed_find [OF dW] keyed_find [OF dW'] set')
  qed
  have shape: "upb_Message_ClearExtensionField msg E =
           msg\<lparr>internal := Some (inl\<lparr>
             ext_array := (ext_array inl)[i := ext_array inl ! ext_begin inl],
             ext_begin := ext_begin inl + 1\<rparr>)\<rparr>"
    using assms(2,3) by (simp add: upb_Message_ClearExtensionField_def)
  have has: "upb_Message_HasExtensionField (upb_Message_ClearExtensionField msg E) E = Some False"
    using assms(5) gone by (simp add: HasExtensionField_window)
  have get: "upb_Message_GetExtensionField (upb_Message_ClearExtensionField msg E) E d out =
           Some (memcpy out 0 d 0 (rep_width (rep (field E))))"
    using assms(4) gone by (simp add: GetExtensionField_window)
  have others: "\<forall>E' d' out'. addr E' \<noteq> addr E \<longrightarrow>
            upb_Message_GetExtensionField (upb_Message_ClearExtensionField msg E) E' d' out' =
            upb_Message_GetExtensionField msg E' d' out'"
    by (simp add: GetExtensionField_window other)
  have inv: "ext_window_distinct (upb_Message_ClearExtensionField msg E)"
    using dW' by (simp add: ext_window_distinct_eq)
  from shape has get others inv show ?thesis by blast
qed


text \<open>The window holds Y and X; X is cleared, Y still reads 7.\<close>

theorem ClearExtensionField_spec_witness:
  "ext_window_distinct msg_XY
   \<and> upb_Message_Getext msg_XY ext_X = Some (1, \<lparr>ext = addr ext_X, data = buf_of [3]\<rparr>)
   \<and> is_extension (field ext_X) \<and> upb_MiniTableField_HasPresence (field ext_X)
   \<and> upb_Message_HasExtensionField (upb_Message_ClearExtensionField msg_XY ext_X) ext_X
       = Some False
   \<and> upb_Message_GetExtensionField (upb_Message_ClearExtensionField msg_XY ext_X) ext_Y zeros zeros
       = upb_Message_GetExtensionField msg_XY ext_Y zeros zeros
   \<and> map_option (\<lambda>b. fetch b 0 2) (upb_Message_GetExtensionField msg_XY ext_Y zeros zeros)
       = Some [7, 0]"
proof -
  have h1: "ext_window_distinct msg_XY"
    by (simp add: ext_window_distinct_def msg_XY_def new_message_def ext_X_def ext_Y_def)
  have h2: "upb_Message_Getext msg_XY ext_X = Some (1, \<lparr>ext = addr ext_X, data = buf_of [3]\<rparr>)"
    by (simp add: upb_Message_Getext_def msg_XY_def new_message_def ext_X_def ext_Y_def upt_rec)
  have h3: "internal msg_XY = Some \<lparr>ext_begin = 0, ext_array =
     [\<lparr>ext = addr ext_Y, data = buf_of [7]\<rparr>, \<lparr>ext = addr ext_X, data = buf_of [3]\<rparr>]\<rparr>"
    by (simp add: msg_XY_def)
  have h4: "is_extension (field ext_X)" and h5: "upb_MiniTableField_HasPresence (field ext_X)"
    by (simp_all add: ext_X_def upb_MiniTableField_HasPresence_def
        upb_MiniTableField_IsExtension_def upb_IsRepeatedOrMap_def)
  have ne: "addr ext_Y \<noteq> addr ext_X"
    by (simp add: ext_X_def ext_Y_def)
  have y: "map_option (\<lambda>b. fetch b 0 2) (upb_Message_GetExtensionField msg_XY ext_Y zeros zeros)
       = Some [7, 0]"
    by (simp add: upb_Message_GetExtensionField_def upb_Message_Getext_def msg_XY_def
        new_message_def ext_X_def ext_Y_def upt_rec upb_MiniTableField_IsExtension_def
        CopyFieldData_eq memcpy_def fetch_def buf_of_def)
  note t = ClearExtensionField_spec [OF h1 h2 h3 h4 h5, of zeros zeros]
  from t have a: "upb_Message_HasExtensionField
      (upb_Message_ClearExtensionField msg_XY ext_X) ext_X = Some False"
    by (rule conjunct2 [THEN conjunct1])
  from t ne have b: "upb_Message_GetExtensionField
      (upb_Message_ClearExtensionField msg_XY ext_X) ext_Y zeros zeros
       = upb_Message_GetExtensionField msg_XY ext_Y zeros zeros"
    by blast
  from h1 h2 h4 h5 a b y show ?thesis
    by (intro conjI)
qed

section \<open>The unified setter\<close>

lemma SetPresence_total: "\<exists>m. upb_Message_SetPresence msg f = Some m \<and> internal m = internal msg"
  by (simp add: upb_Message_SetPresence_def upb_sethas_field_def upb_sethas_def
      upb_MiniTableField_InOneOf_def)

lemma SetNonExtensionField_total:
  "\<not> is_extension f \<Longrightarrow> \<exists>m. upb_Message_SetNonExtensionField msg f v = Some m"
  using SetPresence_total [of msg f] by (auto simp: SetNonExtensionField_eq)





section \<open>Lazy creation of a map\<close>

lemma load64_memcpy [simp]: "load64 (memcpy dst d src s 8) d = load64 src s"
  by (simp add: load64_def)

lemma load64_zeros [simp]: "load64 zeros a = 0"
  by (simp add: load64_eq_0 zeros_def)

lemma load64_le_bytes [simp]: "load64 (buf_of (le_bytes 8 p)) 0 = p"
proof -
  have "fetch (buf_of (le_bytes 8 p)) 0 8 = le_bytes 8 p"
    using fetch_buf_of [of "le_bytes 8 p"] by simp
  then show ?thesis by (simp add: load64_def le_word_le_bytes)
qed

lemma CheckIsMap_rep: "upb_MiniTableField_CheckIsMap f \<Longrightarrow> rep f = kUpb_FieldRep_8Byte"
  by (simp add: upb_MiniTableField_CheckIsMap_def upb_MiniTableField_GetRep_def)

lemma ValueIsNonZero_zeros [simp]: "\<not> upb_MiniTable_ValueIsNonZero zeros f"
  by (cases "rep f")
    (simp_all add: upb_MiniTable_ValueIsNonZero_def upb_MiniTableField_GetRep_def memcmp_eq_0
      upb_StringView_size_def)

lemma Get_map_field:
  assumes "upb_MiniTableField_CheckIsMap f" and "\<not> is_extension f"
  shows "\<exists>g. upb_Message_GetNonExtensionField msg f zeros zeros = Some g
           \<and> load64 g 0 = map_value msg f"
  using assms
  by (simp add: upb_Message_GetNonExtensionField_def upb_Message_HasNonExtensionField_def
      upb_MiniTableField_IsExtension_def upb_MiniTableField_InOneOf_def
      upb_MiniTableField_HasPresence_def upb_getoneofcase_field_def
      upb_MiniTableField_GetConstPtr_def CopyFieldData_eq CheckIsMap_rep map_value_def)

lemma Set_map_field:
  assumes "upb_MiniTableField_CheckIsMap f" and "\<not> is_extension f"
  shows "\<exists>m. upb_Message_SetNonExtensionField msg f (buf_of (le_bytes 8 p)) = Some m
           \<and> load64 (bytes m) (offset f) = p
           \<and> (layout_ok f f \<longrightarrow> map_value m f = p)"
proof (cases "presence f < 0")
  case False
  obtain m0 where m0: "upb_Message_SetPresence msg f = Some m0"
    using SetPresence_total by blast
  let ?m = "m0\<lparr>bytes := memcpy (bytes m0) (offset f) (buf_of (le_bytes 8 p)) 0 8\<rparr>"
  have "upb_Message_SetNonExtensionField msg f (buf_of (le_bytes 8 p)) = Some ?m"
    using assms m0 by (simp add: SetNonExtensionField_eq CheckIsMap_rep)
  moreover have "load64 (bytes ?m) (offset f) = p" by simp
  ultimately show ?thesis using False by (simp add: map_value_def)
next
  case True
  let ?slot = "nat (NOT (presence f))"
  let ?pre = "msg\<lparr>bytes := store32 (bytes msg) ?slot (number f)\<rparr>"
  let ?post = "?pre\<lparr>bytes := memcpy (bytes ?pre) (offset f) (buf_of (le_bytes 8 p)) 0 8\<rparr>"
  have m0: "upb_Message_SetPresence msg f = Some ?pre"
    using True by (simp add: upb_Message_SetPresence_def upb_MiniTableField_InOneOf_def)
  have s: "upb_Message_SetNonExtensionField msg f (buf_of (le_bytes 8 p)) = Some ?post"
    using assms m0 by (simp add: SetNonExtensionField_eq CheckIsMap_rep)
  have v: "load64 (bytes ?post) (offset f) = p" by simp
  have c: "load32 (bytes ?post) ?slot = number f" if "layout_ok f f"
  proof -
    from that True assms(1) have "?slot + 4 \<le> offset f \<or> offset f + 8 \<le> ?slot"
      by (simp add: layout_ok_def slot_clear_of_def CheckIsMap_rep)
    then have "\<forall>i<4. bytes ?post (?slot + i) = bytes ?pre (?slot + i)"
      by (auto simp: memcpy_def)
    then have "load32 (bytes ?post) ?slot = load32 (bytes ?pre) ?slot"
      by (rule load32_cong)
    then show ?thesis by simp
  qed
  from s v c show ?thesis by (auto simp: map_value_def)
qed

lemma IsEmpty_null [simp]: "\<not> upb_TaggedMessagePtr_IsEmpty 0"
  by (simp add: upb_TaggedMessagePtr_IsEmpty_def)

lemma GetOrCreateMutableMap_eq:
  assumes "upb_MiniTableField_CheckIsMap f" and "\<not> is_extension f"
    and "\<not> upb_TaggedMessagePtr_IsEmpty (map_value msg f)"
  shows "upb_Message_GetOrCreateMutableMap msg f ks vs arena =
     (if map_value msg f = 0 then
        map_option (\<lambda>m. (fst (upb_Map_New arena ks vs), m, snd (upb_Map_New arena ks vs)))
          (upb_Message_SetNonExtensionField msg f
             (buf_of (le_bytes 8 (fst (upb_Map_New arena ks vs)))))
      else Some (map_value msg f, msg, arena))"
proof -
  obtain g where g: "upb_Message_GetNonExtensionField msg f zeros zeros = Some g"
      "load64 g 0 = map_value msg f"
    using Get_map_field [OF assms(1,2)] by blast
  show ?thesis
    using assms g
    by (simp add: upb_Message_GetOrCreateMutableMap_def upb_Message_AssertMapIsUntagged_def
        split: prod.splits)
qed

lemma requests_Map_New: "requests (snd (upb_Map_New arena ks vs)) = requests arena + 1"
  by (simp add: upb_Map_New_def upb_Arena_Malloc_def split: list.splits)

lemma field_M_map: "upb_MiniTableField_CheckIsMap field_M" "\<not> is_extension field_M"
  "layout_ok field_M field_M" "offset field_M = 48"
  by (simp_all add: upb_MiniTableField_CheckIsMap_def upb_MiniTableField_GetRep_def field_M_def
      layout_ok_def)

text \<open>
  Claim C6, amended. Let the descriptor be map-shaped and not an extension, with its oneof
  case slot, if it has one, outside its storage; let the reference the getter yields before
  the first call carry no placeholder mark, and let the arena answer the map constructor
  with a non-null, unmarked reference \<open>p\<close>. Then two consecutive calls of
  \<^verbatim>\<open>_upb_Message_GetOrCreateMutableMap\<close> return the same non-null reference, the second call
  leaves the message and the arena as the first call left them, and across the two calls
  the map constructor is invoked exactly once if the getter yielded null before the first
  call, and not at all if it yielded a map.
\<close>

theorem GetOrCreateMutableMap_twice:
  assumes "upb_MiniTableField_CheckIsMap f" and "\<not> is_extension f" and "layout_ok f f"
    and "upb_Message_GetNonExtensionField msg f zeros zeros = Some g"
    and "\<not> upb_TaggedMessagePtr_IsEmpty (load64 g 0)"
    and "upb_Map_New arena ks vs = (p, arena')"
    and "p \<noteq> 0" and "\<not> upb_TaggedMessagePtr_IsEmpty p"
  shows "\<exists>r m1 a1. upb_Message_GetOrCreateMutableMap msg f ks vs arena = Some (r, m1, a1)
           \<and> upb_Message_GetOrCreateMutableMap m1 f ks vs a1 = Some (r, m1, a1)
           \<and> r \<noteq> 0
           \<and> r = (if load64 g 0 = 0 then p else load64 g 0)
           \<and> a1 = (if load64 g 0 = 0 then arena' else arena)
           \<and> requests a1 = requests arena + (if load64 g 0 = 0 then 1 else 0)"
proof -
  have v: "load64 g 0 = map_value msg f"
    using Get_map_field [OF assms(1,2), of msg] assms(4) by auto
  show ?thesis
  proof (cases "map_value msg f = 0")
    case True
    obtain m1 where m1: "upb_Message_SetNonExtensionField msg f (buf_of (le_bytes 8 p)) = Some m1"
        "map_value m1 f = p"
      using Set_map_field [OF assms(1,2), of msg p] assms(3) by auto
    have c1: "upb_Message_GetOrCreateMutableMap msg f ks vs arena = Some (p, m1, arena')"
      using True m1 assms(6) by (simp add: GetOrCreateMutableMap_eq [OF assms(1,2)])
    have c2: "upb_Message_GetOrCreateMutableMap m1 f ks vs arena' = Some (p, m1, arena')"
      using m1 assms(7,8) by (simp add: GetOrCreateMutableMap_eq [OF assms(1,2)])
    have "requests arena' = requests arena + 1"
      using requests_Map_New [of arena ks vs] assms(6) by simp
    with c1 c2 True v assms(7) show ?thesis by simp
  next
    case False
    then have "upb_Message_GetOrCreateMutableMap msg f ks vs arena =
        Some (map_value msg f, msg, arena)"
      using assms(5) v by (simp add: GetOrCreateMutableMap_eq [OF assms(1,2)])
    with False v show ?thesis by simp
  qed
qed

text \<open>A new message and an arena with one block: the map is built once, at 4096.\<close>

theorem GetOrCreateMutableMap_twice_witness:
  "upb_MiniTableField_CheckIsMap field_M \<and> \<not> is_extension field_M
   \<and> layout_ok field_M field_M
   \<and> upb_Message_GetNonExtensionField new_message field_M zeros zeros = Some zeros
   \<and> \<not> upb_TaggedMessagePtr_IsEmpty (load64 zeros 0)
   \<and> upb_Map_New arena_one 8 8 = (4096, \<lparr>answers = [], requests = 1\<rparr>)
   \<and> \<not> upb_TaggedMessagePtr_IsEmpty 4096
   \<and> (\<exists>r m1 a1. upb_Message_GetOrCreateMutableMap new_message field_M 8 8 arena_one
                   = Some (r, m1, a1)
         \<and> upb_Message_GetOrCreateMutableMap m1 field_M 8 8 a1 = Some (r, m1, a1)
         \<and> r = 4096 \<and> requests a1 = 1)"
proof -
  have z: "memcpy zeros 0 (bytes new_message) 48 8 = zeros"
    by (simp add: memcpy_def new_message_def zeros_def fun_eq_iff)
  have "presence field_M = 0" "rep field_M = kUpb_FieldRep_8Byte"
    by (simp_all add: field_M_def)
  then have h4: "upb_Message_GetNonExtensionField new_message field_M zeros zeros = Some zeros"
    using field_M_map z
    by (simp add: upb_Message_GetNonExtensionField_def upb_MiniTableField_IsExtension_def
        upb_MiniTableField_InOneOf_def CopyFieldData_eq upb_MiniTableField_GetConstPtr_def)
  have h5: "\<not> upb_TaggedMessagePtr_IsEmpty (load64 zeros 0)" by simp
  have h6: "upb_Map_New arena_one 8 8 = (4096, \<lparr>answers = [], requests = 1\<rparr>)"
    by (simp add: upb_Map_New_def upb_Arena_Malloc_def arena_one_def)
  have h7: "(4096 :: 64 word) \<noteq> 0" by simp
  have h8: "\<not> upb_TaggedMessagePtr_IsEmpty 4096"
    by (simp add: upb_TaggedMessagePtr_IsEmpty_def)
  have r: "requests arena_one = 0" by (simp add: arena_one_def)
  from GetOrCreateMutableMap_twice [OF field_M_map(1,2,3) h4 h5 h6 h7 h8] r
  have "\<exists>r m1 a1. upb_Message_GetOrCreateMutableMap new_message field_M 8 8 arena_one
                   = Some (r, m1, a1)
         \<and> upb_Message_GetOrCreateMutableMap m1 field_M 8 8 a1 = Some (r, m1, a1)
         \<and> r = 4096 \<and> requests a1 = 1"
    by auto
  with field_M_map(1,2,3) h4 h5 h6 h8 show ?thesis by (intro conjI)
qed

text \<open>
  The claim as the spec words it (the constructor is invoked exactly once across the two
  calls) fails for a message whose field already holds a map: the call returns the stored
  reference and leaves the message and the arena untouched, so a second call is the same
  call again, and the arena has served no request.
\<close>

theorem map_already_there_counterexample:
  "upb_MiniTableField_CheckIsMap field_M
   \<and> upb_Message_GetOrCreateMutableMap msg_with_map field_M 8 8 arena_one
       = Some (4096, msg_with_map, arena_one)
   \<and> requests arena_one = 0"
proof -
  have "fetch (bytes msg_with_map) 48 8 = [0, 16, 0, 0, 0, 0, 0, 0]"
    by (simp add: msg_with_map_def fetch_def buf_of_def upt_rec nth_append)
  then have v: "map_value msg_with_map field_M = 4096"
    by (simp add: map_value_def field_M_def load64_def)
  have "\<not> upb_TaggedMessagePtr_IsEmpty (map_value msg_with_map field_M)"
    by (simp add: v upb_TaggedMessagePtr_IsEmpty_def)
  then have "upb_Message_GetOrCreateMutableMap msg_with_map field_M 8 8 arena_one
       = Some (4096, msg_with_map, arena_one)"
    using v by (simp add: GetOrCreateMutableMap_eq [OF field_M_map(1,2)])
  then show ?thesis
    using field_M_map(1) by (simp add: arena_one_def)
qed

text \<open>
  Claim C10. Let the descriptor be map-shaped and not an extension, and let the field's
  stored value be null. If the map constructor fails, \<^verbatim>\<open>_upb_Message_GetOrCreateMutableMap\<close>
  returns null and the stored value is still null; a later call on the resulting message
  with an arena whose constructor answers a non-null \<open>p\<close> returns \<open>p\<close> and stores it.
\<close>

theorem GetOrCreateMutableMap_failure:
  assumes "upb_MiniTableField_CheckIsMap f" and "\<not> is_extension f"
    and "load64 (bytes msg) (offset f) = 0"
    and "fst (upb_Map_New arena ks vs) = 0"
  shows "\<exists>m1. upb_Message_GetOrCreateMutableMap msg f ks vs arena =
             Some (0, m1, snd (upb_Map_New arena ks vs))
           \<and> load64 (bytes m1) (offset f) = 0
           \<and> (\<forall>arena2 p. fst (upb_Map_New arena2 ks vs) = p \<and> p \<noteq> 0 \<longrightarrow>
                (\<exists>m2. upb_Message_GetOrCreateMutableMap m1 f ks vs arena2 =
                         Some (p, m2, snd (upb_Map_New arena2 ks vs))
                   \<and> load64 (bytes m2) (offset f) = p))"
proof -
  have v0: "map_value msg f = 0"
    using assms(3) by (simp add: map_value_def)
  obtain m1 where m1: "upb_Message_SetNonExtensionField msg f (buf_of (le_bytes 8 (0 :: 64 word))) = Some m1"
      "load64 (bytes m1) (offset f) = 0"
    using Set_map_field [OF assms(1,2), of msg 0] by auto
  have v1: "map_value m1 f = 0"
    using m1(2) by (simp add: map_value_def)
  have c1: "upb_Message_GetOrCreateMutableMap msg f ks vs arena =
      Some (0, m1, snd (upb_Map_New arena ks vs))"
    using v0 m1 assms(4) by (simp add: GetOrCreateMutableMap_eq [OF assms(1,2)])
  have later: "\<exists>m2. upb_Message_GetOrCreateMutableMap m1 f ks vs arena2 =
                         Some (p, m2, snd (upb_Map_New arena2 ks vs))
                   \<and> load64 (bytes m2) (offset f) = p"
    if "fst (upb_Map_New arena2 ks vs) = p" for arena2 p
  proof -
    obtain m2 where m2: "upb_Message_SetNonExtensionField m1 f (buf_of (le_bytes 8 p)) = Some m2"
        "load64 (bytes m2) (offset f) = p"
      using Set_map_field [OF assms(1,2), of m1 p] by auto
    then show ?thesis
      using v1 that by (simp add: GetOrCreateMutableMap_eq [OF assms(1,2)])
  qed
  from c1 m1(2) later show ?thesis by blast
qed


text \<open>A new message, first with the exhausted arena, then with an arena holding one block.\<close>

theorem GetOrCreateMutableMap_failure_witness:
  "upb_MiniTableField_CheckIsMap field_M \<and> \<not> is_extension field_M
   \<and> load64 (bytes new_message) (offset field_M) = 0
   \<and> fst (upb_Map_New empty_arena 8 8) = 0
   \<and> fst (upb_Map_New arena_one 8 8) = 4096
   \<and> (\<exists>m1. upb_Message_GetOrCreateMutableMap new_message field_M 8 8 empty_arena
                = Some (0, m1, snd (upb_Map_New empty_arena 8 8))
         \<and> load64 (bytes m1) (offset field_M) = 0
         \<and> (\<exists>m2. upb_Message_GetOrCreateMutableMap m1 field_M 8 8 arena_one
                    = Some (4096, m2, snd (upb_Map_New arena_one 8 8))
              \<and> load64 (bytes m2) (offset field_M) = 4096))"
proof -
  have h3: "load64 (bytes new_message) (offset field_M) = 0"
    by (simp add: new_message_def)
  have h4: "fst (upb_Map_New empty_arena 8 8) = 0"
    by (simp add: upb_Map_New_def upb_Arena_Malloc_def empty_arena_def)
  have h5: "fst (upb_Map_New arena_one 8 8) = 4096"
    by (simp add: upb_Map_New_def upb_Arena_Malloc_def arena_one_def)
  have h6: "(4096 :: 64 word) \<noteq> 0" by simp
  from GetOrCreateMutableMap_failure [OF field_M_map(1,2) h3 h4] h5 h6
  have "\<exists>m1. upb_Message_GetOrCreateMutableMap new_message field_M 8 8 empty_arena
                = Some (0, m1, snd (upb_Map_New empty_arena 8 8))
         \<and> load64 (bytes m1) (offset field_M) = 0
         \<and> (\<exists>m2. upb_Message_GetOrCreateMutableMap m1 field_M 8 8 arena_one
                    = Some (4096, m2, snd (upb_Map_New arena_one 8 8))
              \<and> load64 (bytes m2) (offset field_M) = 4096)"
    by blast
  with field_M_map(1,2) h3 h4 h5 show ?thesis by (intro conjI)
qed

section \<open>The oneof case slot\<close>

lemma getoneofcase_neg [simp]:
  "presence f < 0 \<Longrightarrow> upb_getoneofcase_field msg f = Some (load32 (bytes msg) (nat (NOT (presence f))))"
  by (simp add: upb_getoneofcase_field_def)

lemma load32_zeros [simp]: "load32 zeros a = 0"
  by (simp add: load32_def le_word_eq_0 zeros_def)

lemma load32_memcpy_clear:
  assumes "s + 4 \<le> lo \<or> lo + n \<le> s"
  shows "load32 (memcpy m lo src k n) s = load32 m s"
proof (rule load32_cong)
  from assms show "\<forall>i<4. memcpy m lo src k n (s + i) = m (s + i)"
    by (auto simp: memcpy_def)
qed

lemma load32_store32_clear:
  assumes "s + 4 \<le> t \<or> t + 4 \<le> s"
  shows "load32 (store32 m t w) s = load32 m s"
  using assms by (simp add: store32_def load32_memcpy_clear)

lemma load32_upd_clear:
  assumes "s + 4 \<le> b \<or> b + 1 \<le> s"
  shows "load32 (m(b := x)) s = load32 m s"
proof (rule load32_cong)
  from assms show "\<forall>i<4. (m(b := x)) (s + i) = m (s + i)"
    by auto
qed

lemma SetPresence_slot:
  assumes "presence f < 0" and "layout_ok f g"
    and "upb_Message_SetPresence msg g = Some m"
  shows "load32 (bytes m) (nat (NOT (presence f))) =
           (if presence g = presence f then number g else load32 (bytes msg) (nat (NOT (presence f))))"
proof -
  consider "0 < presence g" | "presence g < 0" | "presence g = 0" by linarith
  then show ?thesis
  proof cases
    case 1
    with assms show ?thesis
      by (auto simp: upb_Message_SetPresence_def upb_sethas_field_def upb_sethas_def
          upb_hasbit_ofs_def layout_ok_def slot_clear_of_def load32_upd_clear)
  next
    case 2
    with assms show ?thesis
      by (auto simp: upb_Message_SetPresence_def upb_MiniTableField_InOneOf_def
          layout_ok_def slot_clear_of_def load32_store32_clear)
  next
    case 3
    with assms show ?thesis
      by (auto simp: upb_Message_SetPresence_def upb_MiniTableField_InOneOf_def)
  qed
qed

lemma Set_slot:
  assumes "presence f < 0" and "layout_ok f g" and "\<not> is_extension g"
    and "upb_Message_SetNonExtensionField msg g v = Some m"
  shows "load32 (bytes m) (nat (NOT (presence f))) =
           (if presence g = presence f then number g else load32 (bytes msg) (nat (NOT (presence f))))"
proof -
  from assms(3,4) obtain m0 where m0: "upb_Message_SetPresence msg g = Some m0"
    and m: "m = m0\<lparr>bytes := memcpy (bytes m0) (offset g) v 0 (rep_width (rep g))\<rparr>"
    by (auto simp: SetNonExtensionField_eq)
  from assms(1,2) have "nat (NOT (presence f)) + 4 \<le> offset g \<or> offset g + rep_width (rep g) \<le> nat (NOT (presence f))"
    by (simp add: layout_ok_def slot_clear_of_def)
  then have "load32 (bytes m) (nat (NOT (presence f))) = load32 (bytes m0) (nat (NOT (presence f)))"
    by (simp add: m load32_memcpy_clear)
  with SetPresence_slot [OF assms(1,2) m0] show ?thesis by simp
qed

lemma Clear_slot:
  assumes "presence f < 0" and "layout_ok f g"
    and "upb_Message_ClearNonExtensionField msg g = Some m"
  shows "load32 (bytes m) (nat (NOT (presence f))) =
           (if presence g = presence f \<and> load32 (bytes msg) (nat (NOT (presence f))) = number g then 0
            else load32 (bytes msg) (nat (NOT (presence f))))"
proof -
  from assms(1,2) have st: "nat (NOT (presence f)) + 4 \<le> offset g \<or> offset g + rep_width (rep g) \<le> nat (NOT (presence f))"
    by (simp add: layout_ok_def slot_clear_of_def)
  consider "0 < presence g" | "presence g < 0" | "presence g = 0" by linarith
  then show ?thesis
  proof cases
    case 1
    with assms st show ?thesis
      by (auto simp: ClearNonExtensionField_hasbit upb_clearhas_def upb_hasbit_ofs_def
          layout_ok_def slot_clear_of_def load32_upd_clear load32_memcpy_clear)
  next
    case 2
    with assms st show ?thesis
      by (auto simp: upb_Message_ClearNonExtensionField_def upb_MiniTableField_InOneOf_def
          upb_MiniTableField_GetPtr_def CopyFieldData_eq
          layout_ok_def slot_clear_of_def load32_store32_clear load32_memcpy_clear
          split: if_splits)
  next
    case 3
    with assms st show ?thesis
      by (auto simp: upb_Message_ClearNonExtensionField_def upb_MiniTableField_InOneOf_def
          upb_MiniTableField_GetPtr_def CopyFieldData_eq load32_memcpy_clear)
  qed
qed

lemma GetOrCreateExtension_bytes:
  "bytes (fst (snd (upb_Message_GetOrCreateExtension msg e ar))) = bytes msg"
  by (auto simp: upb_Message_GetOrCreateExtension_def Let_def split: option.splits prod.splits)

lemma SetExtensionField_bytes:
  assumes "upb_Message_SetExtensionField msg e v a = Some (r, m, a')"
  shows "bytes m = bytes msg"
proof -
  from assms obtain ar where a: "a = Some ar"
    by (cases a) (simp_all add: upb_Message_SetExtensionField_def)
  obtain i m0 ar' where g: "upb_Message_GetOrCreateExtension msg e ar = (i, m0, ar')"
    by (cases "upb_Message_GetOrCreateExtension msg e ar") auto
  then have "bytes m0 = bytes msg"
    using GetOrCreateExtension_bytes [of msg e ar] by simp
  with assms a g show ?thesis
    by (cases i) (auto simp: upb_Message_SetExtensionField_def update_ext_data_def)
qed

lemma ClearExtensionField_bytes [simp]:
  "bytes (upb_Message_ClearExtensionField msg e) = bytes msg"
  by (simp add: upb_Message_ClearExtensionField_def split: option.splits prod.splits)

lemma GetOrCreateMutableMap_writes:
  assumes "upb_Message_GetOrCreateMutableMap msg g ks vs arena = Some (r, m, a')"
  shows "m = msg \<or> (\<exists>v. upb_Message_SetNonExtensionField msg g v = Some m)"
  using assms
  by (auto simp: upb_Message_GetOrCreateMutableMap_def split: if_splits option.splits prod.splits)


lemma wf_tableD:
  assumes "wf_table fs" and "f \<in> set fs" and "g \<in> set fs"
  shows "layout_ok f g" and "\<not> is_extension g" and "number g \<noteq> 0"
    and "number f = number g \<Longrightarrow> f = g"
  using assms unfolding wf_table_def by blast+

lemma oneof_inv_alt:
  assumes "wf_table fs"
  shows "oneof_inv fs msg \<longleftrightarrow>
     (\<forall>f \<in> set fs. presence f < 0 \<longrightarrow>
        load32 (bytes msg) (nat (NOT (presence f))) = 0
        \<or> (\<exists>g \<in> set fs. presence g = presence f
              \<and> number g = load32 (bytes msg) (nat (NOT (presence f)))))"
proof -
  have u: "\<forall>h \<in> set fs. presence h = p \<and> number h = number g \<longrightarrow> h = g"
    if "g \<in> set fs" for g p
    using wf_tableD(4) [OF assms _ that] by auto
  show ?thesis
    unfolding oneof_inv_def using u by (auto 0 3)
qed

lemma run_call_slot:
  assumes "wf_table fs" and "f \<in> set fs" and "presence f < 0"
    and "call_ok fs c" and "run_call (msg, a) c = Some (msg', a')"
  shows "load32 (bytes msg') (nat (NOT (presence f))) = load32 (bytes msg) (nat (NOT (presence f)))
       \<or> load32 (bytes msg') (nat (NOT (presence f))) = 0
       \<or> (\<exists>g \<in> set fs. presence g = presence f
             \<and> number g = load32 (bytes msg') (nat (NOT (presence f))))"
proof -
  have set: "?thesis"
    if "g \<in> set fs" and "upb_Message_SetNonExtensionField msg g v = Some msg'" for g v
    using Set_slot [OF assms(3) wf_tableD(1) [OF assms(1,2) that(1)]
        wf_tableD(2) [OF assms(1,2) that(1)] that(2)] that(1)
    by (auto split: if_splits)
  show ?thesis
  proof (cases c)
    case (SetNonExtensionField g v)
    with assms(4,5) have "g \<in> set fs"
      and "upb_Message_SetNonExtensionField msg g v = Some msg'" by auto
    then show ?thesis by (rule set)
  next
    case (ClearNonExtensionField g)
    with assms(4,5) have g: "g \<in> set fs"
      and c: "upb_Message_ClearNonExtensionField msg g = Some msg'" by auto
    from Clear_slot [OF assms(3) wf_tableD(1) [OF assms(1,2) g] c] show ?thesis
      by (auto split: if_splits)
  next
    case (SetExtensionField e v)
    with assms(5) show ?thesis
      by (auto split: option.splits dest: SetExtensionField_bytes)
  next
    case (ClearExtensionField e)
    with assms(5) show ?thesis by auto
  next
    case (SetField p v)
    show ?thesis
    proof (cases p)
      case (PlainField g)
      with SetField assms(4) have g: "g \<in> set fs" by simp
      then have "\<not> is_extension g" using wf_tableD(2) [OF assms(1,2)] by simp
      with SetField PlainField assms(5)
      have "upb_Message_SetNonExtensionField msg g v = Some msg'"
        by (auto simp: upb_Message_SetField_def upb_MiniTableField_IsExtension_def
            split: option.splits)
      with g show ?thesis by (rule set)
    next
      case (ExtField e)
      with SetField assms(4,5) show ?thesis
        by (auto simp: upb_Message_SetField_def upb_MiniTableField_IsExtension_def
            split: option.splits dest: SetExtensionField_bytes)
    qed
  next
    case (GetOrCreateMutableMap g ks vs)
    with assms(4,5) obtain r where g: "g \<in> set fs"
      and c: "upb_Message_GetOrCreateMutableMap msg g ks vs a = Some (r, msg', a')"
      by (auto split: option.splits)
    from GetOrCreateMutableMap_writes [OF c] show ?thesis
    proof
      assume "msg' = msg"
      then show ?thesis by simp
    next
      assume "\<exists>v. upb_Message_SetNonExtensionField msg g v = Some msg'"
      then obtain v where "upb_Message_SetNonExtensionField msg g v = Some msg'" ..
      with g show ?thesis by (rule set)
    qed
  qed
qed

lemma run_call_inv:
  assumes "wf_table fs" and "call_ok fs c" and "oneof_inv fs msg"
    and "run_call (msg, a) c = Some (msg', a')"
  shows "oneof_inv fs msg'"
  unfolding oneof_inv_alt [OF assms(1)]
proof (intro ballI impI)
  fix f assume f: "f \<in> set fs" "presence f < 0"
  from assms(3) f have old: "load32 (bytes msg) (nat (NOT (presence f))) = 0
        \<or> (\<exists>g \<in> set fs. presence g = presence f
              \<and> number g = load32 (bytes msg) (nat (NOT (presence f))))"
    unfolding oneof_inv_alt [OF assms(1)] by blast
  from run_call_slot [OF assms(1) f assms(2,4)] old
  show "load32 (bytes msg') (nat (NOT (presence f))) = 0
        \<or> (\<exists>g \<in> set fs. presence g = presence f
              \<and> number g = load32 (bytes msg') (nat (NOT (presence f))))"
    by auto
qed

lemma run_calls_inv:
  assumes "wf_table fs"
  shows "list_all (call_ok fs) cs \<Longrightarrow> oneof_inv fs msg \<Longrightarrow>
         run_calls (msg, a) cs = Some (msg', a') \<Longrightarrow> oneof_inv fs msg'"
proof (induction cs arbitrary: msg a)
  case Nil
  then show ?case by simp
next
  case (Cons c cs)
  from Cons.prems(3) obtain m1 a1 where s: "run_call (msg, a) c = Some (m1, a1)"
    and r: "run_calls (m1, a1) cs = Some (msg', a')"
    by (auto split: option.splits)
  from Cons.prems(1) have ok: "call_ok fs c" "list_all (call_ok fs) cs" by simp_all
  from run_call_inv [OF assms ok(1) Cons.prems(2) s] have "oneof_inv fs m1" .
  from Cons.IH [OF ok(2) this r] show ?case .
qed

lemma oneof_inv_new_message: "oneof_inv fs new_message"
  by (simp add: oneof_inv_def new_message_def)

lemma wf_example_table: "wf_table example_table"
  by (simp add: wf_table_def example_table_def layout_ok_def slot_clear_of_def
      field_A_def field_B_def field_C_def field_D_def field_M_def field_S_def)

lemma example_calls_ok: "list_all (call_ok example_table) example_calls"
  by (simp add: example_calls_def example_table_def ext_X_def)

lemma example_calls_run:
  "map_option (\<lambda>s. load32 (bytes (fst s)) 8) (run_calls (new_message, empty_arena) example_calls)
     = Some 11"
  by (simp add: example_calls_def upb_Message_SetField_def upb_MiniTableField_IsExtension_def
      SetNonExtensionField_eq upb_Message_SetPresence_def upb_MiniTableField_InOneOf_def
      upb_Message_ClearNonExtensionField_def upb_Message_SetExtensionField_def
      upb_Message_GetOrCreateExtension_def upb_Message_Getext_def upb_Arena_Malloc_def
      empty_arena_def new_message_def field_B_def field_C_def ext_X_def
      load32_store32_clear load32_memcpy_clear)


text \<open>
  Claim C7. Let the table of a message type be well laid out (\<open>wf_table\<close>). Then in every
  state reached from a new message by calls of the mutating accessors on the table's fields
  and on extensions, each oneof case slot holds 0 or the field number of exactly one member
  of its group. For a member \<open>f\<close> of a oneof: its number is non-zero; a set of \<open>f\<close> writes
  that number into the slot; a clear of \<open>f\<close> resets the slot to 0 when \<open>f\<close> is the active
  member and returns the message unchanged when it is not; a set or clear of a field that
  is not in \<open>f\<close>'s group, and a set or clear of an extension, leave the slot as it is; and
  \<^verbatim>\<open>_upb_Message_GetOrCreateMutableMap\<close> changes the message only through a set of its
  field.
\<close>

theorem oneof_case_slot_invariant:
  assumes "wf_table fs"
  shows "(list_all (call_ok fs) cs \<and> run_calls (new_message, a) cs = Some (msg, a')
            \<longrightarrow> oneof_inv fs msg)
       \<and> (f \<in> set fs \<and> presence f < 0 \<longrightarrow>
            number f \<noteq> 0
          \<and> (\<exists>m'. upb_Message_SetNonExtensionField m f v = Some m'
                \<and> upb_getoneofcase_field m' f = Some (number f))
          \<and> (upb_getoneofcase_field m f = Some (number f) \<longrightarrow>
               (\<exists>m'. upb_Message_ClearNonExtensionField m f = Some m'
                  \<and> upb_getoneofcase_field m' f = Some 0))
          \<and> (upb_getoneofcase_field m f \<noteq> Some (number f) \<longrightarrow>
               upb_Message_ClearNonExtensionField m f = Some m)
          \<and> (g \<in> set fs \<and> presence g \<noteq> presence f \<longrightarrow>
               (\<forall>m'. upb_Message_SetNonExtensionField m g v = Some m' \<longrightarrow>
                  upb_getoneofcase_field m' f = upb_getoneofcase_field m f)
             \<and> (\<forall>m'. upb_Message_ClearNonExtensionField m g = Some m' \<longrightarrow>
                  upb_getoneofcase_field m' f = upb_getoneofcase_field m f))
          \<and> (\<forall>r m' ar'. upb_Message_SetExtensionField m e v ar = Some (r, m', ar') \<longrightarrow>
               upb_getoneofcase_field m' f = upb_getoneofcase_field m f)
          \<and> upb_getoneofcase_field (upb_Message_ClearExtensionField m e) f
              = upb_getoneofcase_field m f
          \<and> (\<forall>r m' arena'. upb_Message_GetOrCreateMutableMap m g ks vs arena
                 = Some (r, m', arena') \<longrightarrow>
               m' = m \<or> (\<exists>v'. upb_Message_SetNonExtensionField m g v' = Some m')))"
proof (intro conjI impI)
  assume "list_all (call_ok fs) cs \<and> run_calls (new_message, a) cs = Some (msg, a')"
  then show "oneof_inv fs msg"
    using run_calls_inv [OF assms _ oneof_inv_new_message] by blast
next
  assume f: "f \<in> set fs \<and> presence f < 0"
  then have ff: "layout_ok f f" "\<not> is_extension f" "number f \<noteq> 0"
    using wf_tableD [OF assms, of f f] by simp_all
  show "number f \<noteq> 0" by (rule ff)
  show "\<exists>m'. upb_Message_SetNonExtensionField m f v = Some m'
                \<and> upb_getoneofcase_field m' f = Some (number f)"
  proof -
    obtain m' where m': "upb_Message_SetNonExtensionField m f v = Some m'"
      using SetNonExtensionField_total [OF ff(2)] by blast
    with Set_slot [OF _ ff(1,2) m'] f show ?thesis by simp
  qed
  show "\<exists>m'. upb_Message_ClearNonExtensionField m f = Some m'
                  \<and> upb_getoneofcase_field m' f = Some 0"
    if "upb_getoneofcase_field m f = Some (number f)"
  proof -
    from that f obtain m' where m': "upb_Message_ClearNonExtensionField m f = Some m'"
      by (auto simp: upb_Message_ClearNonExtensionField_def upb_MiniTableField_InOneOf_def
          Let_def)
    with Clear_slot [OF _ ff(1) m'] f that show ?thesis by simp
  qed
  show "upb_Message_ClearNonExtensionField m f = Some m"
    if "upb_getoneofcase_field m f \<noteq> Some (number f)"
    using that f
    by (simp add: upb_Message_ClearNonExtensionField_def upb_MiniTableField_InOneOf_def)
  show "\<forall>m'. upb_Message_SetNonExtensionField m g v = Some m' \<longrightarrow>
                  upb_getoneofcase_field m' f = upb_getoneofcase_field m f"
    if "g \<in> set fs \<and> presence g \<noteq> presence f"
  proof (intro allI impI)
    fix m' assume "upb_Message_SetNonExtensionField m g v = Some m'"
    from Set_slot [OF _ wf_tableD(1,2) [OF assms, of f g] this] f that
    show "upb_getoneofcase_field m' f = upb_getoneofcase_field m f" by simp
  qed
  show "\<forall>m'. upb_Message_ClearNonExtensionField m g = Some m' \<longrightarrow>
                  upb_getoneofcase_field m' f = upb_getoneofcase_field m f"
    if "g \<in> set fs \<and> presence g \<noteq> presence f"
  proof (intro allI impI)
    fix m' assume "upb_Message_ClearNonExtensionField m g = Some m'"
    from Clear_slot [OF _ wf_tableD(1) [OF assms, of f g] this] f that
    show "upb_getoneofcase_field m' f = upb_getoneofcase_field m f" by simp
  qed
  show "\<forall>r m' ar'. upb_Message_SetExtensionField m e v ar = Some (r, m', ar') \<longrightarrow>
               upb_getoneofcase_field m' f = upb_getoneofcase_field m f"
    using f by (auto dest: SetExtensionField_bytes)
  show "upb_getoneofcase_field (upb_Message_ClearExtensionField m e) f
              = upb_getoneofcase_field m f"
    using f by simp
  show "\<forall>r m' arena'. upb_Message_GetOrCreateMutableMap m g ks vs arena
                 = Some (r, m', arena') \<longrightarrow>
               m' = m \<or> (\<exists>v'. upb_Message_SetNonExtensionField m g v' = Some m')"
    by (auto dest: GetOrCreateMutableMap_writes)
qed


text \<open>
  The example run ends with the case slot (offset 8) holding 11, the number of C, and the
  invariant holds there; a set of C on a new message puts 11 into the slot.
\<close>

theorem oneof_case_slot_invariant_witness:
  "wf_table example_table
   \<and> list_all (call_ok example_table) example_calls
   \<and> map_option (\<lambda>s. load32 (bytes (fst s)) 8)
        (run_calls (new_message, empty_arena) example_calls) = Some 11
   \<and> (\<exists>msg a'. run_calls (new_message, empty_arena) example_calls = Some (msg, a')
         \<and> oneof_inv example_table msg)
   \<and> field_C \<in> set example_table \<and> presence field_C < 0
   \<and> (\<exists>m'. upb_Message_SetNonExtensionField new_message field_C (buf_of [9]) = Some m'
         \<and> upb_getoneofcase_field m' field_C = Some 11)"
proof -
  from example_calls_run obtain msg a'
    where run: "run_calls (new_message, empty_arena) example_calls = Some (msg, a')"
    by (cases "run_calls (new_message, empty_arena) example_calls") auto
  have c: "field_C \<in> set example_table" "presence field_C < 0" "number field_C = 11"
    by (simp_all add: example_table_def field_C_def)
  note t = oneof_case_slot_invariant [OF wf_example_table, of example_calls empty_arena msg a'
      field_C new_message "buf_of [9]"]
  from t example_calls_ok run have i: "oneof_inv example_table msg"
    by blast
  from t c have s: "\<exists>m'. upb_Message_SetNonExtensionField new_message field_C (buf_of [9]) = Some m'
         \<and> upb_getoneofcase_field m' field_C = Some 11"
    by auto
  from run i have "\<exists>msg a'. run_calls (new_message, empty_arena) example_calls = Some (msg, a')
         \<and> oneof_inv example_table msg"
    by blast
  with wf_example_table example_calls_ok example_calls_run c(1,2) s show ?thesis
    by (intro conjI)
qed

section \<open>One entry per extension descriptor\<close>

text \<open>
  The assumption of claim C3, that the extension window holds at most one entry per
  descriptor, is an invariant of the accessors: it holds of a new message and every
  mutating call keeps it.
\<close>

lemma drop_update_front:
  assumes "k < length xs"
  shows "drop k (xs[k := y]) = y # drop (Suc k) xs"
proof -
  have "drop k (xs[k := y]) = (drop k xs)[0 := y]"
    by (simp add: drop_update_swap)
  also have "drop k xs = xs ! k # drop (Suc k) xs"
    using assms by (rule Cons_nth_drop_Suc [symmetric])
  finally show ?thesis by simp
qed

lemma GetOrCreateExtension_window:
  assumes "upb_Message_GetOrCreateExtension msg e ar = (r, m, ar')"
  shows "ext_window m = ext_window msg
       \<or> (List.find (\<lambda>x. ext x = addr e) (ext_window msg) = None
            \<and> ext_window m = \<lparr>ext = addr e, data = zeros\<rparr> # ext_window msg)"
proof (cases "upb_Message_Getext msg e")
  case (Some ix)
  with assms show ?thesis
    by (cases ix) (simp add: upb_Message_GetOrCreateExtension_def)
next
  case None
  then have n: "List.find (\<lambda>x. ext x = addr e) (ext_window msg) = None"
    using Getext_window [of msg e] by simp
  show ?thesis
  proof (cases "fst (upb_Arena_Malloc ar) = 0")
    case True
    with assms None show ?thesis
      by (auto simp: upb_Message_GetOrCreateExtension_def split: prod.splits)
  next
    case False
    have "ext_window m = \<lparr>ext = addr e, data = zeros\<rparr> # ext_window msg"
    proof (cases "internal msg")
      case None': None
      with assms None False show ?thesis
        by (auto simp: upb_Message_GetOrCreateExtension_def ext_window_def split: prod.splits)
    next
      case (Some inl)
      show ?thesis
      proof (cases "0 < ext_begin inl \<and> ext_begin inl \<le> length (ext_array inl)")
        case True
        then have lt: "ext_begin inl - 1 < length (ext_array inl)"
          and su: "Suc (ext_begin inl - 1) = ext_begin inl" by arith+
        have "drop (ext_begin inl - 1)
            ((ext_array inl)[ext_begin inl - 1 := \<lparr>ext = addr e, data = zeros\<rparr>])
          = \<lparr>ext = addr e, data = zeros\<rparr> # drop (ext_begin inl) (ext_array inl)"
          using drop_update_front [OF lt, of "\<lparr>ext = addr e, data = zeros\<rparr>"] su by simp
        with assms None False Some True show ?thesis
          by (auto simp: upb_Message_GetOrCreateExtension_def ext_window_def Let_def
              split: prod.splits)
      next
        case False': False
        with assms None False Some show ?thesis
          by (auto simp: upb_Message_GetOrCreateExtension_def ext_window_def Let_def
              split: prod.splits)
      qed
    qed
    with n show ?thesis by simp
  qed
qed


lemma update_ext_data_window:
  "map ext (ext_window (update_ext_data m i g)) = map ext (ext_window m)"
proof (cases "internal m")
  case None
  then show ?thesis by (simp add: update_ext_data_def ext_window_def)
next
  case (Some inl)
  have "map ext ((ext_array inl)[i := (ext_array inl ! i)\<lparr>data := g (data (ext_array inl ! i))\<rparr>])
      = map ext (ext_array inl)"
  proof (cases "i < length (ext_array inl)")
    case True
    then show ?thesis
      by (intro nth_equalityI) (simp_all add: nth_list_update)
  next
    case False
    then show ?thesis by (simp add: list_update_beyond)
  qed
  then show ?thesis
    using Some by (simp add: update_ext_data_def ext_window_def drop_map [symmetric])
qed

lemma SetExtensionField_distinct:
  assumes "upb_Message_SetExtensionField msg e v a = Some (r, m, a')"
    and "ext_window_distinct msg"
  shows "ext_window_distinct m"
proof -
  from assms(1) obtain ar where a: "a = Some ar"
    by (cases a) (simp_all add: upb_Message_SetExtensionField_def)
  obtain i m0 ar' where g: "upb_Message_GetOrCreateExtension msg e ar = (i, m0, ar')"
    by (cases "upb_Message_GetOrCreateExtension msg e ar") auto
  have d0: "distinct (map ext (ext_window m0))"
    using GetOrCreateExtension_window [OF g]
  proof
    assume "ext_window m0 = ext_window msg"
    with assms(2) show ?thesis by (simp add: ext_window_distinct_eq)
  next
    assume n: "List.find (\<lambda>x. ext x = addr e) (ext_window msg) = None
      \<and> ext_window m0 = \<lparr>ext = addr e, data = zeros\<rparr> # ext_window msg"
    then have "addr e \<notin> ext ` set (ext_window msg)"
      by (auto simp: find_None_iff)
    with n assms(2) show ?thesis by (simp add: ext_window_distinct_eq)
  qed
  show ?thesis
  proof (cases i)
    case None
    with assms(1) a g d0 show ?thesis
      by (simp add: upb_Message_SetExtensionField_def ext_window_distinct_eq)
  next
    case (Some j)
    with assms(1) a g have "m = update_ext_data m0 j
        (\<lambda>d. upb_MiniTable_CopyFieldData d 0 v 0 (field e))"
      by (simp add: upb_Message_SetExtensionField_def)
    with d0 show ?thesis
      by (simp add: ext_window_distinct_eq update_ext_data_window)
  qed
qed

lemma ClearExtensionField_distinct:
  assumes "ext_window_distinct msg"
  shows "ext_window_distinct (upb_Message_ClearExtensionField msg e)"
proof (cases "upb_Message_Getext msg e")
  case None
  with assms show ?thesis
    by (simp add: upb_Message_ClearExtensionField_def split: option.splits)
next
  case (Some ix)
  then obtain i x where ix: "upb_Message_Getext msg e = Some (i, x)" by (cases ix) simp
  then obtain inl where inl: "internal msg = Some inl"
    by (cases "internal msg") (simp_all add: upb_Message_Getext_def)
  from window_after_removal(2) [of "ext_window msg" "i - ext_begin inl"]
    ClearExtensionField_window(1,2) [OF ix inl] assms
  show ?thesis by (simp add: ext_window_distinct_eq)
qed

lemma SetNonExtensionField_internal:
  assumes "upb_Message_SetNonExtensionField msg f v = Some m"
  shows "internal m = internal msg"
proof -
  from assms have e: "\<not> is_extension f"
    by (auto simp: upb_Message_SetNonExtensionField_def upb_MiniTableField_IsExtension_def
        split: if_splits)
  obtain m0 where m0: "upb_Message_SetPresence msg f = Some m0" "internal m0 = internal msg"
    using SetPresence_total by blast
  with assms e show ?thesis
    by (auto simp: SetNonExtensionField_eq)
qed

lemma ClearNonExtensionField_internal:
  assumes "upb_Message_ClearNonExtensionField msg f = Some m"
  shows "internal m = internal msg"
proof -
  consider "0 < presence f" | "presence f < 0" | "presence f = 0" by linarith
  then show ?thesis
  proof cases
    case 1
    with assms show ?thesis
      by (auto simp: ClearNonExtensionField_hasbit upb_clearhas_def)
  next
    case 2
    with assms show ?thesis
      by (auto simp: upb_Message_ClearNonExtensionField_def upb_MiniTableField_InOneOf_def
          split: if_splits)
  next
    case 3
    with assms show ?thesis
      by (auto simp: upb_Message_ClearNonExtensionField_def upb_MiniTableField_InOneOf_def)
  qed
qed

lemma ext_window_distinct_cong:
  "internal m = internal msg \<Longrightarrow> ext_window_distinct m = ext_window_distinct msg"
  by (simp add: ext_window_distinct_def)

lemma run_call_distinct:
  assumes "ext_window_distinct msg" and "run_call (msg, a) c = Some (msg', a')"
  shows "ext_window_distinct msg'"
proof -
  have set: "ext_window_distinct msg'"
    if "upb_Message_SetNonExtensionField msg g v = Some msg'" for g v
    using ext_window_distinct_cong [OF SetNonExtensionField_internal [OF that]] assms(1)
    by simp
  have setx: "ext_window_distinct msg'"
    if "upb_Message_SetExtensionField msg e v (Some a) = Some (r, msg', x)" for e v r x
    using SetExtensionField_distinct [OF that assms(1)] .
  show ?thesis
  proof (cases c)
    case (SetNonExtensionField g v)
    with assms(2) have "upb_Message_SetNonExtensionField msg g v = Some msg'" by auto
    then show ?thesis by (rule set)
  next
    case (ClearNonExtensionField g)
    with assms(2) have "upb_Message_ClearNonExtensionField msg g = Some msg'" by auto
    from ext_window_distinct_cong [OF ClearNonExtensionField_internal [OF this]] assms(1)
    show ?thesis by simp
  next
    case (SetExtensionField e v)
    with assms(2) obtain r x
      where "upb_Message_SetExtensionField msg e v (Some a) = Some (r, msg', x)"
      by (auto split: option.splits)
    then show ?thesis by (rule setx)
  next
    case (ClearExtensionField e)
    with assms show ?thesis by (auto intro: ClearExtensionField_distinct)
  next
    case (SetField p v)
    with assms(2) obtain r x
      where sf: "upb_Message_SetField msg p v (Some a) = Some (r, msg', x)"
      by (auto split: option.splits)
    show ?thesis
    proof (cases "upb_MiniTableField_IsExtension (deref p)")
      case True
      with sf obtain e where "upb_Message_SetExtensionField msg e v (Some a) = Some (r, msg', x)"
        by (cases p) (simp_all add: upb_Message_SetField_def)
      then show ?thesis by (rule setx)
    next
      case False
      with sf have "upb_Message_SetNonExtensionField msg (deref p) v = Some msg'"
        by (auto simp: upb_Message_SetField_def)
      then show ?thesis by (rule set)
    qed
  next
    case (GetOrCreateMutableMap g ks vs)
    with assms(2) obtain r
      where "upb_Message_GetOrCreateMutableMap msg g ks vs a = Some (r, msg', a')"
      by (auto split: option.splits)
    from GetOrCreateMutableMap_writes [OF this] show ?thesis
    proof
      assume "msg' = msg"
      with assms(1) show ?thesis by simp
    next
      assume "\<exists>v. upb_Message_SetNonExtensionField msg g v = Some msg'"
      then obtain v where "upb_Message_SetNonExtensionField msg g v = Some msg'" ..
      then show ?thesis by (rule set)
    qed
  qed
qed

lemma ext_window_distinct_reachable:
  "ext_window_distinct msg \<Longrightarrow> run_calls (msg, a) cs = Some (msg', a') \<Longrightarrow>
   ext_window_distinct msg'"
proof (induction cs arbitrary: msg a)
  case Nil
  then show ?case by simp
next
  case (Cons c cs)
  from Cons.prems(2) obtain m1 a1 where s: "run_call (msg, a) c = Some (m1, a1)"
    and r: "run_calls (m1, a1) cs = Some (msg', a')"
    by (auto split: option.splits)
  from Cons.IH [OF run_call_distinct [OF Cons.prems(1) s] r] show ?case .
qed

lemma ext_window_distinct_new_message: "ext_window_distinct new_message"
  by (simp add: ext_window_distinct_def new_message_def)

lemma ext_window_distinct_from_new:
  "run_calls (new_message, a) cs = Some (msg, a') \<Longrightarrow> ext_window_distinct msg"
  using ext_window_distinct_reachable [OF ext_window_distinct_new_message] .

end
